theory Spec2Isabelle
  imports Complex_Main "HOL-Library.Log_Nat"
begin

section \<open>The ruler of the screen editor (views/screen/canvas-main/ruler/index.ts)\<close>

text \<open>
  Numbers. A TypeScript \<open>number\<close> is an IEEE 754 double. A finite double is modelled by
  the rational it denotes, the three other kinds of value by constructors of their own
  (\<open>jsnumber\<close>). An arithmetic operation of the source gives the exact result rounded to
  the nearest double, a tie going to the even significand, and beyond the largest double
  an infinity: this is \<open>fl\<close>. The arithmetic of \<open>getPos\<close>, \<open>getDistanceByCoor\<close>,
  \<open>drawPoints\<close>, \<open>updateToolTip\<close> and \<open>createCanvas\<close> is modelled in this way; in the
  handler of a drag, where a position is clamped by \<open>Math.min\<close> and \<open>Math.max\<close>, which
  do not round, the differences of pointer positions and of layout sizes are taken on the
  rationals. A field of type \<open>number\<close> (an option, a pointer coordinate, a layout size)
  is a finite double; it is kept as a rational, and what is proved below holds for every
  rational value of such a field, the doubles among them. The sign of zero is not
  modelled: every zero is \<open>+0\<close>.
\<close>

datatype jsnumber = Finite rat | PosInfinity | NegInfinity | NaN

text \<open>The binary exponent of a rational that is not zero: \<open>2 ^ expo x \<le> \<bar>x\<bar> < 2 ^ (expo x + 1)\<close>.\<close>

definition expo :: "rat \<Rightarrow> int" where
  "expo x =
     (let (p, q) = quotient_of x; e0 = bitlen \<bar>p\<bar> - bitlen q
      in if 2 powi e0 \<le> \<bar>x\<bar> then e0 else e0 - 1)"

text \<open>
  The distance of neighbouring doubles around \<open>x\<close>: 53 bits of significand, and below
  \<open>2 ^ - 1022\<close> the fixed spacing of the subnormal numbers.
\<close>

definition ulp :: "rat \<Rightarrow> rat" where
  "ulp x = 2 powi (max (expo x) (- 1022) - 52)"

text \<open>The nearest integer, a tie going to the even one.\<close>

definition rne :: "rat \<Rightarrow> int" where
  "rne y =
     (let f = \<lfloor>y\<rfloor>; r = y - of_int f
      in if r < 1 / 2 then f else if 1 / 2 < r then f + 1 else if even f then f else f + 1)"

definition fl :: "rat \<Rightarrow> jsnumber" where
  "fl x =
     (if x = 0 then Finite 0
      else (let r = of_int (rne (x / ulp x)) * ulp x
            in if 2 powi 1024 \<le> \<bar>r\<bar> then (if 0 < x then PosInfinity else NegInfinity)
               else Finite r))"

text \<open>The operators \<open>+\<close>, unary and binary \<open>-\<close>, \<open>*\<close> and \<open>/\<close> on numbers.\<close>

fun js_add :: "jsnumber \<Rightarrow> jsnumber \<Rightarrow> jsnumber" where
  "js_add (Finite x) (Finite y) = fl (x + y)"
| "js_add NaN b = NaN"
| "js_add a NaN = NaN"
| "js_add PosInfinity NegInfinity = NaN"
| "js_add NegInfinity PosInfinity = NaN"
| "js_add PosInfinity b = PosInfinity"
| "js_add NegInfinity b = NegInfinity"
| "js_add (Finite x) PosInfinity = PosInfinity"
| "js_add (Finite x) NegInfinity = NegInfinity"

fun js_neg :: "jsnumber \<Rightarrow> jsnumber" where
  "js_neg (Finite x) = Finite (- x)"
| "js_neg PosInfinity = NegInfinity"
| "js_neg NegInfinity = PosInfinity"
| "js_neg NaN = NaN"

definition js_sub :: "jsnumber \<Rightarrow> jsnumber \<Rightarrow> jsnumber" where
  "js_sub a b = js_add a (js_neg b)"

text \<open>The sign of a number that is not \<open>NaN\<close>, for the products and quotients of infinities.\<close>

fun js_sign :: "jsnumber \<Rightarrow> int" where
  "js_sign (Finite x) = (if 0 < x then 1 else if x < 0 then - 1 else 0)"
| "js_sign PosInfinity = 1"
| "js_sign NegInfinity = - 1"
| "js_sign NaN = 0"

definition signed_infinity :: "int \<Rightarrow> jsnumber" where
  "signed_infinity s = (if 0 < s then PosInfinity else if s < 0 then NegInfinity else NaN)"

fun js_mul :: "jsnumber \<Rightarrow> jsnumber \<Rightarrow> jsnumber" where
  "js_mul (Finite x) (Finite y) = fl (x * y)"
| "js_mul NaN b = NaN"
| "js_mul a NaN = NaN"
| "js_mul a b = signed_infinity (js_sign a * js_sign b)"

text \<open>
  A finite number divided by zero is an infinity of its sign, and \<open>0 / 0\<close> is \<open>NaN\<close>; a
  finite number divided by an infinity is zero; an infinity divided by a finite number
  keeps or changes its sign with the sign of the divisor, a zero divisor counting as
  positive.
\<close>

fun js_div :: "jsnumber \<Rightarrow> jsnumber \<Rightarrow> jsnumber" where
  "js_div (Finite x) (Finite y) =
     (if y \<noteq> 0 then fl (x / y)
      else if 0 < x then PosInfinity
      else if x < 0 then NegInfinity
      else NaN)"
| "js_div NaN b = NaN"
| "js_div a NaN = NaN"
| "js_div (Finite x) b = Finite 0"
| "js_div a (Finite y) = signed_infinity (js_sign a * (if y < 0 then - 1 else 1))"
| "js_div a b = NaN"

fun Math_floor :: "jsnumber \<Rightarrow> jsnumber" where
  "Math_floor (Finite q) = Finite (of_int \<lfloor>q\<rfloor>)"
| "Math_floor PosInfinity = PosInfinity"
| "Math_floor NegInfinity = NegInfinity"
| "Math_floor NaN = NaN"

text \<open>
  \<open>Math.round\<close>: the nearest integer, a tie going up. It is computed on the exact value
  of its argument, and the integer it finds is a double.
\<close>

fun Math_round :: "jsnumber \<Rightarrow> jsnumber" where
  "Math_round (Finite q) = Finite (of_int \<lfloor>q + 1 / 2\<rfloor>)"
| "Math_round PosInfinity = PosInfinity"
| "Math_round NegInfinity = NegInfinity"
| "Math_round NaN = NaN"

text \<open>
  The comparisons \<open>a > b\<close>, \<open>a < b\<close> and \<open>a >= b\<close> of a number with a finite one; each is
  false for \<open>NaN\<close>.
\<close>

fun js_gt :: "jsnumber \<Rightarrow> rat \<Rightarrow> bool" where
  "js_gt (Finite q) b = (b < q)"
| "js_gt PosInfinity b = True"
| "js_gt NegInfinity b = False"
| "js_gt NaN b = False"

fun js_lt :: "jsnumber \<Rightarrow> rat \<Rightarrow> bool" where
  "js_lt (Finite q) b = (q < b)"
| "js_lt PosInfinity b = False"
| "js_lt NegInfinity b = True"
| "js_lt NaN b = False"

fun js_ge :: "jsnumber \<Rightarrow> rat \<Rightarrow> bool" where
  "js_ge (Finite q) b = (b \<le> q)"
| "js_ge PosInfinity b = True"
| "js_ge NegInfinity b = False"
| "js_ge NaN b = False"

text \<open>\<open>Math.trunc\<close>-like cut towards zero, which is what \<open>%\<close> and \<open>parseInt\<close> use.\<close>

definition trunc :: "rat \<Rightarrow> int" where
  "trunc x = (if 0 \<le> x then \<lfloor>x\<rfloor> else \<lceil>x\<rceil>)"

text \<open>
  \<open>a % b\<close> for a finite divisor that is not zero: the remainder has the sign of \<open>a\<close>; it
  is exact, no rounding takes place; the remainder of an infinity or of \<open>NaN\<close> is \<open>NaN\<close>.
\<close>

fun js_rem :: "jsnumber \<Rightarrow> rat \<Rightarrow> jsnumber" where
  "js_rem (Finite a) b = Finite (a - b * of_int (trunc (a / b)))"
| "js_rem PosInfinity b = NaN"
| "js_rem NegInfinity b = NaN"
| "js_rem NaN b = NaN"



text \<open>The double that the literal \<open>1.2\<close> denotes; \<open>1.5\<close>, \<open>0.5\<close> and \<open>2.5\<close> are doubles.\<close>

definition lit_1_2 :: rat where
  "lit_1_2 = 5404319552844595 / 4503599627370496"

text \<open>The doubles that \<open>1.1\<close> and \<open>0.35\<close> denote, two scales to run the code with.\<close>

definition lit_1_1 :: rat where
  "lit_1_1 = 2476979795053773 / 2251799813685248"

definition lit_0_35 :: rat where
  "lit_0_35 = 3152519739159347 / 9007199254740992"

subsection \<open>Options and events\<close>

datatype LayoutDirection = LR | TB

record RulerOption =
  direction :: LayoutDirection
  rulerWidth :: rat
  rulerHeight :: rat
  bgColor :: string
  fontFamily :: string
  fontSize :: string
  fontColor :: string
  strokeStyle :: string
  lineWidth :: rat
  enableMouseTracking :: bool
  enableToolTip :: bool
  scale :: rat
  offset :: rat
  ratio :: rat

record MouseEvent =
  clientX :: rat
  clientY :: rat

subsection \<open>The document: nodes, listeners, the canvas context\<close>

type_synonym ref = nat

text \<open>
  Function objects that get registered as listeners. A method read off an instance
  (\<open>this.mousedown\<close>) is the one function object of the prototype, whoever reads it;
  \<open>f.bind(this)\<close> makes a new function object at every call, told apart here by the
  reference it was allocated under.
\<close>

datatype rb_method = ConstructIndicator | ConstructGuide

datatype handler =
    GuideLine_mousedown
  | GuideLine_stopMoving
  | GuideLine_dblclick
  | Bound ref rb_method

text \<open>A style length is the empty string or \<open>pixelize v\<close>, the text of \<open>v\<close> followed by \<open>px\<close>.\<close>

datatype css_length = Unset | Px rat

definition pixelize :: "rat \<Rightarrow> css_length" where
  "pixelize val = Px val"

text \<open>
  \<open>parseInt(s) || 0\<close> on a style length: the empty string parses to \<open>NaN\<close>, which is
  falsy; \<open>v px\<close> parses to the integer part of \<open>v\<close>.
\<close>

fun parseInt_or_0 :: "css_length \<Rightarrow> rat" where
  "parseInt_or_0 Unset = 0"
| "parseInt_or_0 (Px v) = of_int (trunc v)"

text \<open>
  Assigning \<open>pixelize v\<close> to \<open>left\<close> or \<open>top\<close>: the texts \<open>NaNpx\<close> and \<open>Infinitypx\<close> are
  not lengths, the assignment is ignored and the property keeps the value it had. To
  \<open>width\<close> and \<open>height\<close> a negative length cannot be assigned either.
\<close>

fun set_length :: "jsnumber \<Rightarrow> css_length \<Rightarrow> css_length" where
  "set_length (Finite v) old = pixelize v"
| "set_length PosInfinity old = old"
| "set_length NegInfinity old = old"
| "set_length NaN old = old"

definition set_size :: "rat \<Rightarrow> css_length \<Rightarrow> css_length" where
  "set_size v old = (if 0 \<le> v then pixelize v else old)"

text \<open>
  \<open>canvas.width = v\<close> and \<open>canvas.height = v\<close>. The two attributes are of type
  \<open>unsigned long\<close>: the number is cut to an integer and taken modulo \<open>2 ^ 32\<close>, a number
  that is not finite counting as 0, and a result above 2147483647 is replaced by the
  default of the attribute, 300 for the width and 150 for the height.
\<close>

fun to_unsigned_long :: "jsnumber \<Rightarrow> int" where
  "to_unsigned_long (Finite v) = trunc v mod 2 ^ 32"
| "to_unsigned_long PosInfinity = 0"
| "to_unsigned_long NegInfinity = 0"
| "to_unsigned_long NaN = 0"

definition canvas_size :: "int \<Rightarrow> jsnumber \<Rightarrow> int" where
  "canvas_size dflt v = (if to_unsigned_long v \<le> 2147483647 then to_unsigned_long v else dflt)"

text \<open>
  The tooltip text \<open>'X: ' + n + ' px'\<close> or \<open>'Y: ' + n + ' px'\<close>, kept as its axis and
  its number.
\<close>

datatype tooltip = XTip jsnumber | YTip jsnumber

text \<open>
  The calls a 2D context has received since its canvas was last sized. A number printed
  through a template literal (\<open>fillText\<close>'s label) is kept as the number.
\<close>

datatype ctx_op =
    BeginPath
  | ClosePath
  | Stroke
  | FillStyle string
  | StrokeStyle string
  | Font string
  | TextAlign string
  | LineWidth rat
  | SetTransform rat rat rat rat rat rat
  | FillRect rat rat rat rat
  | MoveTo jsnumber jsnumber
  | LineTo jsnumber jsnumber
  | FillText jsnumber jsnumber jsnumber

record node =
  tagName :: string
  classList :: "string list"
  listeners :: "(string \<times> handler) list"
  parentNode :: "ref option"
  childNodes :: "ref list"
  style_left :: css_length
  style_top :: css_length
  style_width :: css_length
  style_height :: css_length
  style_cursor :: string
  style_display :: string
  title :: string
  dataset_tip :: "tooltip option"
  innerHTML :: "jsnumber option"
  offsetLeft :: rat
  offsetTop :: rat
  offsetWidth :: rat
  offsetHeight :: rat
  canvas_width :: int
  canvas_height :: int
  ctx :: "ctx_op list"

text \<open>
  \<open>innerHTML\<close> holds the coordinate that \<open>constructGuide\<close> prints into its fixed markup.
  The four \<open>offset\<close> fields are what layout reports for the node; the file only reads them.
\<close>

record GuideLine =
  gl_el :: ref
  guideLine :: ref
  gl_options :: ref
  event :: MouseEvent
  dragContainer :: "ref option"

text \<open>
  The arrow function that \<open>startMoving\<close> stores in \<open>document.onmousemove\<close>, with the
  variables it closes over.
\<close>

record move_closure =
  self :: GuideLine
  diffX :: rat
  diffY :: rat
  cWi :: rat
  eWi :: rat
  cHe :: rat
  eHe :: rat

text \<open>
  The world: the nodes by reference, the option objects by reference (a guide line keeps
  the reference it was given, not a copy), the next free reference, and the single
  \<open>document.onmousemove\<close> slot.
\<close>

record world =
  heap :: "ref \<Rightarrow> node"
  optionsHeap :: "ref \<Rightarrow> RulerOption"
  nextRef :: ref
  onmousemove :: "move_closure option"

datatype error = TypeError

definition upd :: "ref \<Rightarrow> (node \<Rightarrow> node) \<Rightarrow> world \<Rightarrow> world" where
  "upd r f w = w\<lparr>heap := (heap w)(r := f (heap w r))\<rparr>"

definition new_node :: "string \<Rightarrow> node" where
  "new_node tag =
     \<lparr>tagName = tag, classList = [], listeners = [], parentNode = None, childNodes = [],
      style_left = Unset, style_top = Unset, style_width = Unset, style_height = Unset,
      style_cursor = [], style_display = [], title = [], dataset_tip = None,
      innerHTML = None, offsetLeft = 0, offsetTop = 0, offsetWidth = 0, offsetHeight = 0,
      canvas_width = 0, canvas_height = 0, ctx = []\<rparr>"

definition createElement :: "string \<Rightarrow> world \<Rightarrow> ref \<times> world" where
  "createElement tag w =
     (nextRef w, w\<lparr>heap := (heap w)(nextRef w := new_node tag), nextRef := Suc (nextRef w)\<rparr>)"

text \<open>\<open>f.bind(this)\<close>: a function object nobody has seen before.\<close>

definition bind :: "rb_method \<Rightarrow> world \<Rightarrow> handler \<times> world" where
  "bind m w = (Bound (nextRef w) m, w\<lparr>nextRef := Suc (nextRef w)\<rparr>)"

definition addEventListener :: "ref \<Rightarrow> string \<Rightarrow> handler \<Rightarrow> world \<Rightarrow> world" where
  "addEventListener r ty h =
     upd r (\<lambda>n. if (ty, h) \<in> set (listeners n) then n
                else n\<lparr>listeners := listeners n @ [(ty, h)]\<rparr>)"

definition removeEventListener :: "ref \<Rightarrow> string \<Rightarrow> handler \<Rightarrow> world \<Rightarrow> world" where
  "removeEventListener r ty h = upd r (\<lambda>n. n\<lparr>listeners := removeAll (ty, h) (listeners n)\<rparr>)"

definition removeChild :: "ref \<Rightarrow> ref \<Rightarrow> world \<Rightarrow> world" where
  "removeChild p c w =
     upd c (\<lambda>n. n\<lparr>parentNode := None\<rparr>)
       (upd p (\<lambda>n. n\<lparr>childNodes := removeAll c (childNodes n)\<rparr>) w)"

text \<open>\<open>node.remove()\<close>: nothing happens to a node without a parent.\<close>

definition remove_node :: "ref \<Rightarrow> world \<Rightarrow> world" where
  "remove_node c w = (case parentNode (heap w c) of None \<Rightarrow> w | Some p \<Rightarrow> removeChild p c w)"

definition appendChild :: "ref \<Rightarrow> ref \<Rightarrow> world \<Rightarrow> world" where
  "appendChild p c w =
     upd c (\<lambda>n. n\<lparr>parentNode := Some p\<rparr>)
       (upd p (\<lambda>n. n\<lparr>childNodes := childNodes n @ [c]\<rparr>) (remove_node c w))"

text \<open>
  \<open>el.querySelector('.c')\<close>: the first descendant of \<open>el\<close>, in document order, that has
  the class. The search is bounded by the number of references handed out, which no
  chain of first-child and next-sibling steps in a tree can exceed.
\<close>

fun find_desc :: "nat \<Rightarrow> (ref \<Rightarrow> node) \<Rightarrow> string \<Rightarrow> ref list \<Rightarrow> ref option" where
  "find_desc 0 h c rs = None"
| "find_desc (Suc k) h c [] = None"
| "find_desc (Suc k) h c (r # rs) =
     (if c \<in> set (classList (h r)) then Some r
      else (case find_desc k h c (childNodes (h r)) of
              Some x \<Rightarrow> Some x
            | None \<Rightarrow> find_desc k h c rs))"

definition querySelector :: "ref \<Rightarrow> string \<Rightarrow> world \<Rightarrow> ref option" where
  "querySelector r c w = find_desc (nextRef w) (heap w) c (childNodes (heap w r))"

text \<open>
  Modelled from the spec: \<open>addClass\<close> and \<open>removeClass\<close> of \<open>@/utils/dom\<close>, which is not
  among the sources; the spec calls them a class toggling utility on visual nodes, used
  for styling state only. \<open>addClass\<close> puts the class on the node unless it is there,
  \<open>removeClass\<close> takes it off.
\<close>

definition addClass :: "ref \<Rightarrow> string \<Rightarrow> world \<Rightarrow> world" where
  "addClass r c =
     upd r (\<lambda>n. if c \<in> set (classList n) then n else n\<lparr>classList := classList n @ [c]\<rparr>)"

definition removeClass :: "ref \<Rightarrow> string \<Rightarrow> world \<Rightarrow> world" where
  "removeClass r c = upd r (\<lambda>n. n\<lparr>classList := removeAll c (classList n)\<rparr>)"

subsection \<open>class GuideLine\<close>

definition showToolTip :: "GuideLine \<Rightarrow> world \<Rightarrow> world" where
  "showToolTip this w =
     (if \<not> enableToolTip (optionsHeap w (gl_options this)) then w
      else addClass (guideLine this) ''rul_tooltip'' w)"

definition hideToolTip :: "GuideLine \<Rightarrow> world \<Rightarrow> world" where
  "hideToolTip this w = removeClass (guideLine this) ''rul_tooltip'' w"

text \<open>\<open>if (y)\<close> takes the first branch for every number but zero.\<close>

definition updateToolTip :: "GuideLine \<Rightarrow> rat \<Rightarrow> rat \<Rightarrow> world \<Rightarrow> world" where
  "updateToolTip this x y w =
     (let options = optionsHeap w (gl_options this) in
      if y \<noteq> 0 then
        upd (guideLine this) (\<lambda>n. n\<lparr>dataset_tip :=
          Some (YTip (Math_round (js_mul
            (js_sub (js_sub (js_sub (Finite y) (Finite (rulerHeight options))) (Finite 1))
               (Finite (offset options)))
            (Finite (scale options)))))\<rparr>) w
      else
        upd (guideLine this) (\<lambda>n. n\<lparr>dataset_tip :=
          Some (XTip (Math_round (js_mul
            (js_sub (js_sub (js_sub (Finite x) (Finite (rulerHeight options))) (Finite 1))
               (Finite (offset options)))
            (Finite (scale options)))))\<rparr>) w)"

text \<open>The body of the arrow function in \<open>document.onmousemove\<close>, run on a mouse event.\<close>

definition run_move :: "move_closure \<Rightarrow> MouseEvent \<Rightarrow> world \<Rightarrow> world" where
  "run_move c evt w =
     (let aX = min (max (clientX evt - diffX c) 0) (cWi c - eWi c);
          aY = min (max (clientY evt - diffY c) 0) (cHe c - eHe c);
          w1 = upd (guideLine (self c)) (\<lambda>n. n\<lparr>style_left := pixelize aX\<rparr>) w;
          w2 = upd (guideLine (self c)) (\<lambda>n. n\<lparr>style_top := pixelize aY\<rparr>) w1
      in updateToolTip (self c) aX aY w2)"

text \<open>A \<open>mousemove\<close> reaching the document: the slot's function runs, if there is one.\<close>

definition document_mousemove :: "MouseEvent \<Rightarrow> world \<Rightarrow> world" where
  "document_mousemove evt w =
     (case onmousemove w of None \<Rightarrow> w | Some c \<Rightarrow> run_move c evt w)"

text \<open>
  \<open>startMoving\<close> reads \<open>dragContainer.offsetWidth\<close>; \<open>dragContainer\<close> is whatever
  \<open>querySelector\<close> returned, and reading a property of \<open>null\<close> throws. The world at the
  throw is not kept.
\<close>

definition startMoving :: "GuideLine \<Rightarrow> MouseEvent \<Rightarrow> world \<Rightarrow> error + world" where
  "startMoving this e w =
     (let w1 = addClass (guideLine this) ''rul_line_dragged'' w;
          g = heap w1 (guideLine this);
          divTop = parseInt_or_0 (style_top g);
          divLeft = parseInt_or_0 (style_left g)
      in case dragContainer this of
           None \<Rightarrow> Inl TypeError
         | Some dc \<Rightarrow>
            (let cursor = (if direction (optionsHeap w1 (gl_options this)) = TB
                           then ''ns-resize'' else ''ew-resize'');
                 c = \<lparr>self = this,
                      diffX = clientX e - divLeft, diffY = clientY e - divTop,
                      cWi = offsetWidth (heap w1 dc), eWi = offsetWidth g,
                      cHe = offsetHeight (heap w1 dc), eHe = offsetHeight g\<rparr>;
                 w2 = upd (gl_el this) (\<lambda>n. n\<lparr>style_cursor := cursor\<rparr>) w1;
                 w3 = upd (guideLine this) (\<lambda>n. n\<lparr>style_cursor := cursor\<rparr>) w2;
                 w4 = w3\<lparr>onmousemove := Some c\<rparr>
             in Inr (showToolTip this w4)))"

definition stopMoving :: "GuideLine \<Rightarrow> world \<Rightarrow> world" where
  "stopMoving this w =
     (let w1 = upd (gl_el this) (\<lambda>n. n\<lparr>style_cursor := []\<rparr>) w;
          w2 = upd (guideLine this) (\<lambda>n. n\<lparr>style_cursor := []\<rparr>) w1;
          w3 = w2\<lparr>onmousemove := None\<rparr>;
          w4 = hideToolTip this w3
      in removeClass (guideLine this) ''rul_line_dragged'' w4)"

definition GuideLine_show :: "GuideLine \<Rightarrow> world \<Rightarrow> world" where
  "GuideLine_show this = upd (guideLine this) (\<lambda>n. n\<lparr>style_display := ''block''\<rparr>)"

definition GuideLine_hide :: "GuideLine \<Rightarrow> world \<Rightarrow> world" where
  "GuideLine_hide this = upd (guideLine this) (\<lambda>n. n\<lparr>style_display := ''none''\<rparr>)"

definition GuideLine_destroy :: "GuideLine \<Rightarrow> world \<Rightarrow> world" where
  "GuideLine_destroy this w =
     (let w1 = stopMoving this w;
          w2 = removeEventListener (guideLine this) ''mousedown'' GuideLine_mousedown w1;
          w3 = removeEventListener (guideLine this) ''mouseup'' GuideLine_stopMoving w2;
          w4 = removeEventListener (guideLine this) ''dblclick'' GuideLine_dblclick w3
      in case parentNode (heap w4 (guideLine this)) of
           None \<Rightarrow> w4
         | Some p \<Rightarrow> removeChild p (guideLine this) w4)"

text \<open>\<open>new GuideLine(el, guideLine, options, event)\<close>: the instance and the world it leaves.\<close>

definition new_GuideLine ::
  "ref \<Rightarrow> ref \<Rightarrow> ref \<Rightarrow> MouseEvent \<Rightarrow> world \<Rightarrow> error + (GuideLine \<times> world)" where
  "new_GuideLine el gl options ev w =
     (let this = \<lparr>gl_el = el, guideLine = gl, gl_options = options, event = ev,
                  dragContainer = querySelector el ''ruler-wrapper'' w\<rparr>;
          w1 = addEventListener gl ''mousedown'' GuideLine_mousedown w;
          w2 = addEventListener gl ''mouseup'' GuideLine_stopMoving w1;
          w3 = addEventListener gl ''dblclick'' GuideLine_dblclick w2
      in case startMoving this ev w3 of
           Inl err \<Rightarrow> Inl err
         | Inr w4 \<Rightarrow> Inr (this, w4))"

subsection \<open>class RulerBuilder\<close>

record ruler =
  orgPos :: rat
  thickness :: rat
  width :: rat
  height :: rat

record RulerBuilder =
  el :: ref
  canvas :: ref
  indicator :: "ref option"
  indicatorValue :: "ref option"
  indicatorLineWidth :: rat
  ruler :: ruler
  guides :: "GuideLine list"
  options :: ref

text \<open>The canvas of the builder always has a 2D context; its calls are the node's \<open>ctx\<close>.\<close>

definition createCanvas :: "ref option \<Rightarrow> rat \<Rightarrow> rat \<Rightarrow> rat \<Rightarrow> world \<Rightarrow> ref \<times> world" where
  "createCanvas el_opt wd ht rt w =
     (let (cv, w0) = (case el_opt of Some r \<Rightarrow> (r, w) | None \<Rightarrow> createElement ''canvas'' w);
          w1 = upd cv (\<lambda>n. n\<lparr>canvas_width := canvas_size 300 (js_mul (Finite wd) (Finite rt)),
                              ctx := []\<rparr>) w0;
          w2 = upd cv (\<lambda>n. n\<lparr>canvas_height := canvas_size 150 (js_mul (Finite ht) (Finite rt)),
                              ctx := []\<rparr>) w1;
          w3 = upd cv (\<lambda>n. n\<lparr>style_width := set_size wd (style_width n)\<rparr>) w2;
          w4 = upd cv (\<lambda>n. n\<lparr>style_height := set_size ht (style_height n)\<rparr>) w3;
          w5 = upd cv (\<lambda>n. n\<lparr>ctx := ctx n @ [SetTransform rt 0 0 rt 0 0]\<rparr>) w4
      in (cv, w5))"

text \<open>
  One turn of the loop of \<open>drawPoints\<close>: what the context receives at \<open>pos\<close>. The
  counter \<open>pos\<close> goes through the integers from 0 on; they are doubles, and
  \<open>pos += 1\<close> is exact, as long as the width is below \<open>2 ^ 53\<close>, which the theorems
  about what is drawn assume.
\<close>

definition drawPoint :: "rat \<Rightarrow> rat \<Rightarrow> rat \<Rightarrow> int \<Rightarrow> ctx_op list" where
  "drawPoint ht off sc pos =
     (let maxTickLen = Finite 0;
          medTickLen = js_div (Finite ht) (Finite (3 / 2));
          minTickLen = js_div (Finite ht) (Finite lit_1_2);
          delta = js_sub (Finite (of_int pos)) (Finite off)
      in if js_lt delta 0 then []
         else
          (let (label, tickLen) =
                 (if js_rem delta 50 = Finite 0
                  then (Math_floor (js_div delta (Finite sc)), maxTickLen)
                  else if js_rem delta 25 = Finite 0 then (Finite (- 1), medTickLen)
                  else if js_rem delta 5 = Finite 0 then (Finite (- 1), minTickLen)
                  else (Finite (- 1), Finite (- 1)))
           in if js_ge tickLen 0 then
                [MoveTo (js_add (Finite (of_int pos)) (Finite (1 / 2)))
                   (js_add (Finite ht) (Finite (1 / 2))),
                 LineTo (js_add (Finite (of_int pos)) (Finite (1 / 2))) tickLen]
                @ (if js_gt label (- 1)
                   then [FillText label (js_add (Finite (of_int pos)) (Finite (5 / 2)))
                           (js_div (Finite ht) (Finite (3 / 2)))]
                   else [])
              else []))"

function drawPoints_loop :: "rat \<Rightarrow> rat \<Rightarrow> rat \<Rightarrow> rat \<Rightarrow> int \<Rightarrow> ctx_op list \<Rightarrow> ctx_op list" where
  "drawPoints_loop wd ht off sc pos c =
     (if of_int pos \<le> wd then drawPoints_loop wd ht off sc (pos + 1) (c @ drawPoint ht off sc pos)
      else c)"
  by pat_completeness auto
termination
  by (relation "measure (\<lambda>(wd, ht, off, sc, pos, c). nat (\<lfloor>wd\<rfloor> + 1 - pos))")
     (auto simp: le_floor_iff)

definition drawPoints :: "RulerBuilder \<Rightarrow> world \<Rightarrow> world" where
  "drawPoints this w =
     (let opts = optionsHeap w (options this) in
      upd (canvas this)
        (\<lambda>n. n\<lparr>ctx := drawPoints_loop (width (ruler this)) (height (ruler this))
                          (offset opts) (scale opts) 0 (ctx n)\<rparr>) w)"

definition drawRuler :: "RulerBuilder \<Rightarrow> world \<Rightarrow> world" where
  "drawRuler this w =
     (let opts = optionsHeap w (options this);
          w1 = upd (canvas this) (\<lambda>n. n\<lparr>ctx := ctx n @
                 [BeginPath, FillStyle (bgColor opts),
                  FillRect 0 0 (width (ruler this)) (height (ruler this)), ClosePath,
                  BeginPath, Font (fontSize opts @ '' '' @ fontFamily opts), TextAlign ''left'',
                  FillStyle (fontColor opts), StrokeStyle (strokeStyle opts),
                  LineWidth (lineWidth opts)]\<rparr>) w;
          w2 = drawPoints this w1
      in upd (canvas this) (\<lambda>n. n\<lparr>ctx := ctx n @ [Stroke]\<rparr>) w2)"

text \<open>
  \<open>getPos\<close>: \<open>el.parentElement?.offsetLeft || 0\<close> is zero when there is no parent.
\<close>

record pos =
  coor :: jsnumber
  distance :: jsnumber

definition getPos :: "RulerBuilder \<Rightarrow> MouseEvent \<Rightarrow> world \<Rightarrow> pos" where
  "getPos this e w =
     (let opts = optionsHeap w (options this);
          d0 = (if direction opts = TB
                then js_sub (Finite (clientX e))
                       (Finite (case parentNode (heap w (el this)) of
                                  None \<Rightarrow> 0 | Some p \<Rightarrow> offsetLeft (heap w p)))
                else js_sub (Finite (clientY e))
                       (Finite (case parentNode (heap w (el this)) of
                                  None \<Rightarrow> 0 | Some p \<Rightarrow> offsetTop (heap w p))));
          d = js_add (js_sub d0 (Finite (rulerHeight opts))) (Finite (indicatorLineWidth this))
      in \<lparr>coor = Math_floor (js_div (js_sub d (Finite (offset opts))) (Finite (scale opts))),
          distance = d\<rparr>)"


text \<open>\<open>Partial<RulerOption>\<close>: every field may be missing.\<close>

record PartialRulerOption =
  p_direction :: "LayoutDirection option"
  p_rulerWidth :: "rat option"
  p_rulerHeight :: "rat option"
  p_bgColor :: "string option"
  p_fontFamily :: "string option"
  p_fontSize :: "string option"
  p_fontColor :: "string option"
  p_strokeStyle :: "string option"
  p_lineWidth :: "rat option"
  p_enableMouseTracking :: "bool option"
  p_enableToolTip :: "bool option"
  p_scale :: "rat option"
  p_offset :: "rat option"
  p_ratio :: "rat option"

definition default_options :: RulerOption where
  "default_options =
     \<lparr>direction = TB, rulerWidth = 1000, rulerHeight = 20, bgColor = ''#0e1013'',
      fontFamily = ''sans-serif'', fontSize = ''10px'', fontColor = ''#90a0ae'',
      strokeStyle = ''rgba(161, 174, 179, 0.8)'', lineWidth = 1 / 2,
      enableMouseTracking = True, enableToolTip = True, scale = 1, offset = 40, ratio = 2\<rparr>"

definition or_else :: "'a option \<Rightarrow> 'a \<Rightarrow> 'a" where
  "or_else x d = (case x of None \<Rightarrow> d | Some v \<Rightarrow> v)"

text \<open>\<open>{ ...this.options, ...options }\<close>: a field that is given replaces the default.\<close>

definition spread :: "RulerOption \<Rightarrow> PartialRulerOption \<Rightarrow> RulerOption" where
  "spread d p =
     \<lparr>direction = or_else (p_direction p) (direction d),
      rulerWidth = or_else (p_rulerWidth p) (rulerWidth d),
      rulerHeight = or_else (p_rulerHeight p) (rulerHeight d),
      bgColor = or_else (p_bgColor p) (bgColor d),
      fontFamily = or_else (p_fontFamily p) (fontFamily d),
      fontSize = or_else (p_fontSize p) (fontSize d),
      fontColor = or_else (p_fontColor p) (fontColor d),
      strokeStyle = or_else (p_strokeStyle p) (strokeStyle d),
      lineWidth = or_else (p_lineWidth p) (lineWidth d),
      enableMouseTracking = or_else (p_enableMouseTracking p) (enableMouseTracking d),
      enableToolTip = or_else (p_enableToolTip p) (enableToolTip d),
      scale = or_else (p_scale p) (scale d),
      offset = or_else (p_offset p) (offset d),
      ratio = or_else (p_ratio p) (ratio d)\<rparr>"

definition constructRuler :: "RulerBuilder \<Rightarrow> world \<Rightarrow> RulerBuilder \<times> world" where
  "constructRuler this w =
     (let opts = optionsHeap w (options this);
          wd = (if direction opts = TB
                then max (offsetWidth (heap w (el this))) (rulerWidth opts)
                else max (offsetHeight (heap w (el this))) (rulerWidth opts));
          ht = rulerHeight opts;
          this1 = this\<lparr>ruler := (ruler this)\<lparr>width := wd, height := ht\<rparr>\<rparr>;
          (cv, w1) = createCanvas None wd ht (ratio opts) w;
          w2 = addClass cv ''canvas-ruler'' w1;
          w3 = appendChild (el this) cv w2;
          this2 = this1\<lparr>canvas := cv\<rparr>;
          w4 = drawRuler this2 w3;
          (h1, w5) = bind ConstructIndicator w4;
          w6 = addEventListener cv ''mouseenter'' h1 w5;
          (h2, w7) = bind ConstructGuide w6;
          w8 = addEventListener cv ''mousedown'' h2 w7
      in (this2, w8))"

text \<open>
  \<open>new RulerBuilder(container, options)\<close>. The field initialisers run first; \<open>canvas\<close>
  has no value until \<open>constructRuler\<close> assigns it, so the reference written here is
  never read.
\<close>

definition new_RulerBuilder :: "ref \<Rightarrow> PartialRulerOption \<Rightarrow> world \<Rightarrow> RulerBuilder \<times> world" where
  "new_RulerBuilder container popts w =
     (let o_ref = nextRef w;
          w1 = w\<lparr>optionsHeap := (optionsHeap w)(o_ref := spread default_options popts),
                 nextRef := Suc (nextRef w)\<rparr>;
          this = \<lparr>el = container, canvas = container, indicator = None, indicatorValue = None,
                  indicatorLineWidth = 1,
                  ruler = \<lparr>orgPos = 0, thickness = 0, width = 0, height = 0\<rparr>,
                  guides = [], options = o_ref\<rparr>
      in constructRuler this w1)"

text \<open>
  \<open>constructGuide\<close>. Its last two lines, which would make a \<open>GuideLine\<close> and push it on
  \<open>guides\<close>, are commented out in the source; the method does not assign to \<open>this\<close>.
  The title of the node, a Chinese text in the source, is given here in English.
\<close>

definition constructGuide :: "RulerBuilder \<Rightarrow> MouseEvent \<Rightarrow> world \<Rightarrow> RulerBuilder \<times> world" where
  "constructGuide this e w =
     (let opts = optionsHeap w (options this);
          (guide, w1) = createElement ''div'' w;
          w2 = upd guide (\<lambda>n. n\<lparr>title := ''double click removes the guide''\<rparr>) w1;
          w3 = addClass guide ''ruler-line'' w2;
          pos = getPos this e w3;
          w4 = (if direction opts = TB
                then upd guide (\<lambda>n. n\<lparr>style_left := set_length (distance pos) (style_left n)\<rparr>) w3
                else upd guide (\<lambda>n. n\<lparr>style_top := set_length (distance pos) (style_top n)\<rparr>) w3);
          w5 = upd guide (\<lambda>n. n\<lparr>innerHTML := Some (coor pos)\<rparr>) w4;
          (guideWp, w6) =
             (case querySelector (el this) ''lines-wrapper'' w5 of
                Some r \<Rightarrow> (r, w5)
              | None \<Rightarrow>
                 (let (r, v1) = createElement ''div'' w5;
                      v2 = addClass r ''lines-wrapper'' v1
                  in (r, appendChild (el this) r v2)))
      in (this, appendChild guideWp guide w6))"

definition setSize :: "RulerBuilder \<Rightarrow> rat \<Rightarrow> rat \<Rightarrow> rat \<Rightarrow> world \<Rightarrow> RulerBuilder \<times> world" where
  "setSize this wi h s w =
     (let o_ref = options this;
          w1 = w\<lparr>optionsHeap := (optionsHeap w)(o_ref := (optionsHeap w o_ref)\<lparr>rulerWidth := wi\<rparr>)\<rparr>;
          w2 = w1\<lparr>optionsHeap := (optionsHeap w1)(o_ref := (optionsHeap w1 o_ref)\<lparr>rulerHeight := h\<rparr>)\<rparr>;
          w3 = w2\<lparr>optionsHeap := (optionsHeap w2)(o_ref := (optionsHeap w2 o_ref)\<lparr>scale := s\<rparr>)\<rparr>;
          opts = optionsHeap w3 o_ref;
          wd = (if direction opts = TB
                then max (offsetWidth (heap w3 (el this))) (rulerWidth opts)
                else max (offsetHeight (heap w3 (el this))) (rulerWidth opts));
          ht = rulerHeight opts;
          this1 = this\<lparr>ruler := (ruler this)\<lparr>width := wd, height := ht\<rparr>\<rparr>;
          (cv, w4) = createCanvas (Some (canvas this1)) wd ht (ratio opts) w3
      in (this1, drawRuler this1 w4))"

definition setScale :: "RulerBuilder \<Rightarrow> rat \<Rightarrow> world \<Rightarrow> RulerBuilder \<times> world" where
  "setScale this s w =
     (let o_ref = options this;
          w1 = w\<lparr>optionsHeap := (optionsHeap w)(o_ref := (optionsHeap w o_ref)\<lparr>scale := s\<rparr>)\<rparr>
      in (this, drawRuler this w1))"

definition toggleGuide :: "RulerBuilder \<Rightarrow> bool \<Rightarrow> world \<Rightarrow> RulerBuilder \<times> world" where
  "toggleGuide this visible w =
     (this, fold (\<lambda>guide. if visible then GuideLine_show guide else GuideLine_hide guide)
              (guides this) w)"

definition clearGuides :: "RulerBuilder \<Rightarrow> world \<Rightarrow> RulerBuilder \<times> world" where
  "clearGuides this w = (this\<lparr>guides := []\<rparr>, fold GuideLine_destroy (guides this) w)"

definition destroy :: "RulerBuilder \<Rightarrow> world \<Rightarrow> RulerBuilder \<times> world" where
  "destroy this w =
     (let (this1, w1) = clearGuides this w;
          (h1, w2) = bind ConstructIndicator w1;
          w3 = removeEventListener (canvas this1) ''mouseenter'' h1 w2;
          (h2, w4) = bind ConstructGuide w3;
          w5 = removeEventListener (canvas this1) ''mousedown'' h2 w4
      in (this1, remove_node (el this1) w5))"

declare drawPoints_loop.simps [simp del]

subsection \<open>What the specification says, and a page to run the code on\<close>

text \<open>
  The specification's \<open>toLogical\<close>:
  \<open>floor((devicePos - thickness - offset) / scale)\<close>.
\<close>

definition spec_toLogical :: "rat \<Rightarrow> rat \<Rightarrow> rat \<Rightarrow> rat \<Rightarrow> int" where
  "spec_toLogical thick off sc devicePos = \<lfloor>(devicePos - thick - off) / sc\<rfloor>"

text \<open>
  A page with one element, reference 0, 800 by 600, that has no parent and no children:
  the container handed to \<open>new RulerBuilder\<close>.
\<close>

definition page :: world where
  "page =
     \<lparr>heap = (\<lambda>r. new_node [])(0 := (new_node ''div'')\<lparr>offsetWidth := 800, offsetHeight := 600\<rparr>),
      optionsHeap = (\<lambda>r. default_options),
      nextRef = 1,
      onmousemove = None\<rparr>"

definition no_options :: PartialRulerOption where
  "no_options =
     \<lparr>p_direction = None, p_rulerWidth = None, p_rulerHeight = None, p_bgColor = None,
      p_fontFamily = None, p_fontSize = None, p_fontColor = None, p_strokeStyle = None,
      p_lineWidth = None, p_enableMouseTracking = None, p_enableToolTip = None,
      p_scale = None, p_offset = None, p_ratio = None\<rparr>"

definition thickness_0 :: PartialRulerOption where
  "thickness_0 = no_options\<lparr>p_rulerHeight := Some 0\<rparr>"

definition scale_2 :: PartialRulerOption where
  "scale_2 = no_options\<lparr>p_scale := Some 2\<rparr>"

definition scale_513_4096 :: PartialRulerOption where
  "scale_513_4096 =
     no_options\<lparr>p_rulerHeight := Some 1, p_scale := Some (513 / 4096), p_offset := Some 0\<rparr>"

definition scale_1_1 :: PartialRulerOption where
  "scale_1_1 = no_options\<lparr>p_scale := Some lit_1_1\<rparr>"

text \<open>
  A page for a guide line: the container 0 (800 by 600) holds the drag container 1 with
  the class \<open>ruler-wrapper\<close> (800 by 600) and the wrapper 2 with the class
  \<open>lines-wrapper\<close>, which holds the guide node 3 (1 by 600). The options object 4 has
  the defaults, the options object 5 has the defaults with scale 2.
\<close>

definition guide_page :: world where
  "guide_page =
     \<lparr>heap = (\<lambda>r. new_node [])
        (0 := (new_node ''div'')\<lparr>childNodes := [1, 2], offsetWidth := 800, offsetHeight := 600\<rparr>,
         1 := (new_node ''div'')\<lparr>classList := [''ruler-wrapper''], parentNode := Some 0,
                                    offsetWidth := 800, offsetHeight := 600\<rparr>,
         2 := (new_node ''div'')\<lparr>classList := [''lines-wrapper''], parentNode := Some 0,
                                    childNodes := [3]\<rparr>,
         3 := (new_node ''div'')\<lparr>classList := [''ruler-line''], parentNode := Some 2,
                                    offsetWidth := 1, offsetHeight := 600\<rparr>),
      optionsHeap = (\<lambda>r. default_options)(5 := default_options\<lparr>scale := 2\<rparr>),
      nextRef = 6,
      onmousemove = None\<rparr>"

definition guide_3 :: GuideLine where
  "guide_3 =
     \<lparr>gl_el = 0, guideLine = 3, gl_options = 5, event = \<lparr>clientX = 0, clientY = 0\<rparr>,
      dragContainer = Some 1\<rparr>"

text \<open>The page once \<open>new GuideLine(0, 3, 5, event)\<close> has run on it.\<close>

definition dragging_page :: world where
  "dragging_page = snd (projr (new_GuideLine 0 3 5 \<lparr>clientX = 0, clientY = 0\<rparr> guide_page))"

text \<open>The page once \<open>guide_3.startMoving(event)\<close> has run on it.\<close>

definition moving_page :: world where
  "moving_page = projr (startMoving guide_3 \<lparr>clientX = 0, clientY = 0\<rparr> guide_page)"

text \<open>
  For the proofs: what \<open>destroy\<close> of a guide line has done to the page before it takes
  the node out of its parent, written as one update of the container and one of the node.
\<close>

definition detached :: "GuideLine \<Rightarrow> world \<Rightarrow> world" where
  "detached this w =
     (upd (guideLine this)
        (\<lambda>n. n\<lparr>style_cursor := [],
                classList := removeAll ''rul_line_dragged'' (removeAll ''rul_tooltip'' (classList n)),
                listeners := removeAll (''dblclick'', GuideLine_dblclick)
                  (removeAll (''mouseup'', GuideLine_stopMoving)
                    (removeAll (''mousedown'', GuideLine_mousedown) (listeners n)))\<rparr>)
        (upd (gl_el this) (\<lambda>n. n\<lparr>style_cursor := []\<rparr>) w))\<lparr>onmousemove := None\<rparr>"

text \<open>
  For the proofs: the page in the middle of \<open>constructGuide\<close>, when the guide node has been
  created and filled in and the wrapper has not been looked up yet.
\<close>

definition guide_made :: "RulerBuilder \<Rightarrow> MouseEvent \<Rightarrow> world \<Rightarrow> world" where
  "guide_made this e w =
     (let opts = optionsHeap w (options this);
          (guide, w1) = createElement ''div'' w;
          w2 = upd guide (\<lambda>n. n\<lparr>title := ''double click removes the guide''\<rparr>) w1;
          w3 = addClass guide ''ruler-line'' w2;
          pos = getPos this e w3;
          w4 = (if direction opts = TB
                then upd guide (\<lambda>n. n\<lparr>style_left := set_length (distance pos) (style_left n)\<rparr>) w3
                else upd guide (\<lambda>n. n\<lparr>style_top := set_length (distance pos) (style_top n)\<rparr>) w3)
      in upd guide (\<lambda>n. n\<lparr>innerHTML := Some (coor pos)\<rparr>) w4)"

section \<open>Lemmas on the rounding of doubles\<close>

lemma p2_add: "(2 :: rat) powi (a + b) = 2 powi a * 2 powi b"
  by (simp add: power_int_add)

lemma p2_diff: "(2 :: rat) powi (a - b) = 2 powi a / 2 powi b"
  by (simp add: power_int_diff)

lemma p2_less_iff: "(2 :: rat) powi a < 2 powi b \<longleftrightarrow> a < b"
proof
  assume l: "(2 :: rat) powi a < 2 powi b"
  show "a < b"
  proof (rule ccontr)
    assume "\<not> a < b"
    then have "b \<le> a" by simp
    then have "(2 :: rat) powi b \<le> 2 powi a" by (intro power_int_increasing) simp_all
    with l show False by simp
  qed
next
  assume "a < b"
  then show "(2 :: rat) powi a < 2 powi b" by (intro power_int_strict_increasing) simp_all
qed

lemma p2_le_iff: "(2 :: rat) powi a \<le> 2 powi b \<longleftrightarrow> a \<le> b"
  using p2_less_iff [of b a] by (auto simp: not_less [symmetric])

lemma bitlen_powi:
  assumes "0 < (m :: int)"
  shows "2 powi (bitlen m - 1) \<le> (of_int m :: rat)" and "(of_int m :: rat) < 2 powi (bitlen m)"
proof -
  from assms have b: "1 \<le> bitlen m" by (auto simp: bitlen_alt_def)
  have 1: "(2 :: int) ^ nat (bitlen m - 1) \<le> m" and 2: "m < 2 ^ nat (bitlen m)"
    using bitlen_bounds [OF assms] by auto
  have "(2 :: rat) powi (bitlen m - 1) = of_int (2 ^ nat (bitlen m - 1))"
    using b by (simp add: power_int_nonneg_exp)
  also have "\<dots> \<le> of_int m" using 1 by (simp only: of_int_le_iff)
  finally show "2 powi (bitlen m - 1) \<le> (of_int m :: rat)" .
  have "(of_int m :: rat) < of_int (2 ^ nat (bitlen m))" using 2 by (simp only: of_int_less_iff)
  also have "\<dots> = 2 powi (bitlen m)" using b by (simp add: power_int_nonneg_exp)
  finally show "(of_int m :: rat) < 2 powi (bitlen m)" .
qed

lemma expo_bounds:
  assumes "x \<noteq> 0"
  shows "2 powi expo x \<le> \<bar>x\<bar>" and "\<bar>x\<bar> < 2 powi (expo x + 1)"
proof -
  obtain p q where pq: "quotient_of x = (p, q)" by (cases "quotient_of x")
  then have q: "0 < q" and x: "x = of_int p / of_int q"
    by (auto simp: quotient_of_denom_pos quotient_of_div)
  from x assms have p: "0 < \<bar>p\<bar>" by auto
  define e0 where "e0 = bitlen \<bar>p\<bar> - bitlen q"
  have ax: "\<bar>x\<bar> = of_int \<bar>p\<bar> / of_int q" using q by (simp add: x)
  have qpos: "(0 :: rat) < of_int q" using q by simp
  have up: "\<bar>x\<bar> < 2 powi (e0 + 1)"
  proof -
    have "of_int \<bar>p\<bar> / of_int q < (2 :: rat) powi (bitlen \<bar>p\<bar>) / of_int q"
      using bitlen_powi(2) [OF p] qpos by (simp add: divide_strict_right_mono)
    also have "\<dots> \<le> 2 powi (bitlen \<bar>p\<bar>) / 2 powi (bitlen q - 1)"
      using bitlen_powi(1) [OF q] qpos by (intro divide_left_mono) (auto intro: mult_pos_pos)
    also have "\<dots> = 2 powi (bitlen \<bar>p\<bar> - (bitlen q - 1))"
      by (simp only: p2_diff)
    also have "bitlen \<bar>p\<bar> - (bitlen q - 1) = e0 + 1" by (simp add: e0_def)
    finally show ?thesis by (simp add: ax)
  qed
  have lo: "2 powi (e0 - 1) \<le> \<bar>x\<bar>"
  proof -
    have "e0 - 1 = bitlen \<bar>p\<bar> - 1 - bitlen q" by (simp add: e0_def)
    then have "(2 :: rat) powi (e0 - 1) = 2 powi (bitlen \<bar>p\<bar> - 1) / 2 powi (bitlen q)"
      by (simp only: p2_diff)
    also have "\<dots> \<le> of_int \<bar>p\<bar> / 2 powi (bitlen q)"
      using bitlen_powi(1) [OF p] by (simp add: divide_right_mono)
    also have "\<dots> \<le> of_int \<bar>p\<bar> / of_int q"
      using bitlen_powi(2) [OF q] qpos p by (intro divide_left_mono) (auto intro: mult_pos_pos)
    finally show ?thesis by (simp add: ax)
  qed
  have e: "expo x = (if 2 powi e0 \<le> \<bar>x\<bar> then e0 else e0 - 1)"
    by (simp add: expo_def pq e0_def Let_def)
  show "2 powi expo x \<le> \<bar>x\<bar>" using lo by (simp add: e)
  show "\<bar>x\<bar> < 2 powi (expo x + 1)" using up by (auto simp: e not_le)
qed

lemma expo_unique:
  assumes "2 powi e \<le> \<bar>x\<bar>" and "\<bar>x\<bar> < 2 powi (e + 1)"
  shows "expo x = e"
proof -
  have "(0 :: rat) < 2 powi e" by simp
  with assms(1) have "0 < \<bar>x\<bar>" by linarith
  then have x: "x \<noteq> 0" by simp
  have "(2 :: rat) powi expo x < 2 powi (e + 1)"
    using expo_bounds(1) [OF x] assms(2) by simp
  then have 1: "expo x < e + 1" by (simp only: p2_less_iff)
  have "(2 :: rat) powi e < 2 powi (expo x + 1)"
    using expo_bounds(2) [OF x] assms(1) by simp
  then have 2: "e < expo x + 1" by (simp only: p2_less_iff)
  from 1 2 show ?thesis by simp
qed


lemma rne_of_int [simp]: "rne (of_int k) = k"
  by (simp add: rne_def)

lemma rne_error: "\<bar>of_int (rne y) - y\<bar> \<le> 1 / 2"
proof -
  have "of_int \<lfloor>y\<rfloor> \<le> y" "y < of_int \<lfloor>y\<rfloor> + 1" by linarith+
  then show ?thesis by (auto simp: rne_def Let_def)
qed

lemma rne_nonneg: "0 \<le> y \<Longrightarrow> 0 \<le> rne y"
proof -
  assume "0 \<le> y"
  then have "0 \<le> \<lfloor>y\<rfloor>" by simp
  then show ?thesis by (auto simp: rne_def Let_def)
qed

lemma rne_nonpos: "y \<le> 0 \<Longrightarrow> rne y \<le> 0"
proof -
  assume y: "y \<le> 0"
  show ?thesis
  proof (cases "y = of_int \<lfloor>y\<rfloor>")
    case True
    then obtain k where "y = of_int k" ..
    then show ?thesis using y by simp
  next
    case False
    then have "of_int \<lfloor>y\<rfloor> < y" by linarith
    with y have "\<lfloor>y\<rfloor> < 0" by linarith
    then have "\<lfloor>y\<rfloor> + 1 \<le> 0" by linarith
    moreover have "rne y \<le> \<lfloor>y\<rfloor> + 1" by (auto simp: rne_def Let_def)
    ultimately show ?thesis by linarith
  qed
qed

lemma ulp_pos: "0 < ulp x"
  by (simp add: ulp_def)

lemma ulp_neq_0 [simp]: "ulp x \<noteq> 0"
  using ulp_pos [of x] by simp

lemma ulp_nonneg [simp]: "0 \<le> ulp x"
  using ulp_pos [of x] by simp

lemma fl_exact:
  assumes "x / ulp x = of_int m" and "\<bar>x\<bar> < 2 powi 1024"
  shows "fl x = Finite x"
proof (cases "x = 0")
  case True
  then show ?thesis by (simp add: fl_def)
next
  case False
  have "x = of_int m * ulp x" using assms(1) by (simp add: divide_eq_eq)
  moreover have "rne (x / ulp x) = m" by (simp add: assms(1))
  ultimately have "of_int (rne (x / ulp x)) * ulp x = x" by simp
  then show ?thesis using False assms(2) by (simp add: fl_def Let_def)
qed

lemma fl_error:
  assumes "fl x = Finite r"
  shows "\<bar>r - x\<bar> \<le> ulp x / 2"
proof (cases "x = 0")
  case True
  then show ?thesis using assms by (auto simp: fl_def)
next
  case False
  with assms have r: "r = of_int (rne (x / ulp x)) * ulp x"
    by (auto simp: fl_def Let_def split: if_splits)
  have "r - x = (of_int (rne (x / ulp x)) - x / ulp x) * ulp x"
    by (simp add: r algebra_simps)
  then have "\<bar>r - x\<bar> = \<bar>of_int (rne (x / ulp x)) - x / ulp x\<bar> * ulp x"
    by (simp add: abs_mult)
  also have "\<dots> \<le> 1 / 2 * ulp x"
    by (intro mult_right_mono rne_error) simp
  finally show ?thesis by simp
qed

lemma fl_nonneg:
  assumes "0 \<le> x"
  shows "fl x = PosInfinity \<or> (\<exists>r. fl x = Finite r \<and> 0 \<le> r)"
proof (cases "x = 0")
  case True
  then show ?thesis by (simp add: fl_def)
next
  case False
  have "0 \<le> x / ulp x" by (intro divide_nonneg_pos) (simp_all add: assms ulp_pos)
  then have "0 \<le> rne (x / ulp x)" by (rule rne_nonneg)
  then have "0 \<le> of_int (rne (x / ulp x)) * ulp x" by (intro mult_nonneg_nonneg) simp_all
  then show ?thesis using False assms by (auto simp: fl_def Let_def)
qed

lemma fl_dyadic:
  assumes "\<bar>n\<bar> \<le> 2 ^ 53" and "j \<le> 1000"
  shows "fl (of_int n / 2 ^ j) = Finite (of_int n / 2 ^ j)"
proof (cases "n = 0")
  case True
  then show ?thesis by (simp add: fl_def)
next
  case False
  define x :: rat where "x = of_int n / 2 ^ j"
  define e where "e = expo x"
  have x0: "x \<noteq> 0" using False by (simp add: x_def)
  have ax: "\<bar>x\<bar> = of_int \<bar>n\<bar> / 2 ^ j"
    by (simp add: x_def)
  have pj: "(2 :: rat) ^ j = 2 powi (int j)" by simp
  have n1: "(1 :: rat) \<le> of_int \<bar>n\<bar>"
  proof -
    from False have "1 \<le> \<bar>n\<bar>" by simp
    then have "(of_int 1 :: rat) \<le> of_int \<bar>n\<bar>" by (simp only: of_int_le_iff)
    then show ?thesis by simp
  qed
  have n2: "(of_int \<bar>n\<bar> :: rat) \<le> 2 powi 53"
  proof -
    have "(of_int \<bar>n\<bar> :: rat) \<le> of_int (2 ^ 53)" using assms(1) by (simp only: of_int_le_iff)
    then show ?thesis by simp
  qed
  have lo: "2 powi (e + int j) \<le> (of_int \<bar>n\<bar> :: rat)"
  proof -
    have "(2 :: rat) powi e \<le> of_int \<bar>n\<bar> / 2 ^ j"
      using expo_bounds(1) [OF x0] by (simp only: e_def ax)
    then have "(2 :: rat) powi e * 2 ^ j \<le> of_int \<bar>n\<bar>"
      by (simp only: pos_le_divide_eq [of "2 ^ j", OF zero_less_power [OF zero_less_numeral]])
    then show ?thesis by (simp only: p2_add pj)
  qed
  have hi: "(of_int \<bar>n\<bar> :: rat) < 2 powi (e + int j + 1)"
  proof -
    have "of_int \<bar>n\<bar> / 2 ^ j < (2 :: rat) powi (e + 1)"
      using expo_bounds(2) [OF x0] by (simp only: e_def ax)
    then have "(of_int \<bar>n\<bar> :: rat) < 2 powi (e + 1) * 2 ^ j"
      by (simp only: pos_divide_less_eq [of "2 ^ j", OF zero_less_power [OF zero_less_numeral]])
    also have "\<dots> = 2 powi (e + 1 + int j)" by (simp only: p2_add pj)
    also have "e + 1 + int j = e + int j + 1" by simp
    finally show ?thesis .
  qed
  have "(2 :: rat) powi 0 < 2 powi (e + int j + 1)" using n1 hi by simp
  then have "0 < e + int j + 1" by (simp only: p2_less_iff)
  then have e_lo: "0 \<le> e + int j" by simp
  have "(2 :: rat) powi (e + int j) \<le> 2 powi 53" using lo n2 by (rule order_trans)
  then have e_hi: "e + int j \<le> 53" by (simp only: p2_le_iff)
  have m: "max e (- 1022) = e" using e_lo assms(2) by simp
  have u: "ulp x = 2 powi (e - 52)" by (simp add: ulp_def e_def [symmetric] m)
  have q: "x / ulp x = of_int n * 2 powi (52 - e - int j)"
  proof -
    have "x / ulp x = x / 2 powi (e - 52)" by (simp only: u)
    also have "\<dots> = of_int n / (2 powi (int j) * 2 powi (e - 52))"
      by (simp only: x_def pj divide_divide_eq_left)
    also have "\<dots> = of_int n / 2 powi (int j + (e - 52))" by (simp only: p2_add)
    also have "\<dots> = of_int n * (1 / 2 powi (int j + (e - 52)))" by simp
    also have "1 / (2 :: rat) powi (int j + (e - 52)) = 2 powi (- (int j + (e - 52)))"
      by (simp only: power_int_minus_divide)
    also have "- (int j + (e - 52)) = 52 - e - int j" by simp
    finally show ?thesis .
  qed
  have "\<exists>m. x / ulp x = of_int m"
  proof (cases "e + int j \<le> 52")
    case True
    then have "(2 :: rat) powi (52 - e - int j) = of_int (2 ^ nat (52 - e - int j))"
      by (simp add: power_int_nonneg_exp)
    then have "x / ulp x = of_int (n * 2 ^ nat (52 - e - int j))" by (simp add: q)
    then show ?thesis ..
  next
    case False
    with e_hi have e53: "e + int j = 53" by simp
    then have "2 powi 53 \<le> (of_int \<bar>n\<bar> :: rat)" using lo by simp
    with n2 have "(of_int \<bar>n\<bar> :: rat) = of_int (2 ^ 53)" by simp
    then have "\<bar>n\<bar> = 2 ^ 53" by (simp only: of_int_eq_iff)
    then have n': "n = 2 ^ 53 \<or> n = - (2 ^ 53)" by (auto simp: abs_if split: if_splits)
    from e53 have em: "52 - e - int j = - 1" by simp
    have "x / ulp x = of_int n * 2 powi (- 1)" by (simp only: q em)
    then have h: "x / ulp x = of_int n * (1 / 2)" by simp
    from n' show ?thesis
    proof
      assume "n = 2 ^ 53"
      then have "x / ulp x = of_int (2 ^ 52)" by (simp add: h)
      then show ?thesis ..
    next
      assume "n = - (2 ^ 53)"
      then have "x / ulp x = of_int (- (2 ^ 52))" by (simp add: h)
      then show ?thesis ..
    qed
  qed
  then obtain m where m: "x / ulp x = of_int m" ..
  have "\<bar>x\<bar> \<le> of_int \<bar>n\<bar>"
  proof -
    have "(1 :: rat) \<le> 2 ^ j" by simp
    then have "of_int \<bar>n\<bar> / (2 :: rat) ^ j \<le> of_int \<bar>n\<bar> / 1"
      by (intro divide_left_mono) simp_all
    then show ?thesis by (simp add: ax)
  qed
  also have "\<dots> \<le> 2 powi 53" by (rule n2)
  also have "\<dots> < (2 :: rat) powi 1024" by (simp only: p2_less_iff)
  finally have b: "\<bar>x\<bar> < 2 powi 1024" .
  show ?thesis using fl_exact [OF m b] by (simp add: x_def)
qed

lemma fl_of_int: "\<bar>n\<bar> \<le> 2 ^ 53 \<Longrightarrow> fl (of_int n) = Finite (of_int n)"
  using fl_dyadic [of n 0] by simp


lemma rne_ulp_error: "\<bar>of_int (rne (x / ulp x)) * ulp x - x\<bar> \<le> ulp x / 2"
proof -
  have "of_int (rne (x / ulp x)) * ulp x - x = (of_int (rne (x / ulp x)) - x / ulp x) * ulp x"
    by (simp add: algebra_simps)
  then have "\<bar>of_int (rne (x / ulp x)) * ulp x - x\<bar>
      = \<bar>of_int (rne (x / ulp x)) - x / ulp x\<bar> * ulp x"
    by (simp add: abs_mult)
  also have "\<dots> \<le> 1 / 2 * ulp x"
    by (intro mult_right_mono rne_error) simp
  finally show ?thesis by simp
qed

lemma half_ulp_small:
  assumes "0 < b" and "\<bar>a\<bar> < 2 ^ 53" and "b < 2 ^ 53" and "x = of_int a / of_int b" and "x \<noteq> 0"
  shows "ulp x / 2 < 1 / of_int b"
proof -
  have bpos: "(0 :: rat) < of_int b" using assms(1) by simp
  have b53: "(of_int b :: rat) < 2 powi 53"
  proof -
    have "(of_int b :: rat) < of_int (2 ^ 53)" using assms(3) by (simp only: of_int_less_iff)
    then show ?thesis by simp
  qed
  have a53: "(of_int \<bar>a\<bar> :: rat) < 2 powi 53"
  proof -
    have "(of_int \<bar>a\<bar> :: rat) < of_int (2 ^ 53)" using assms(2) by (simp only: of_int_less_iff)
    then show ?thesis by simp
  qed
  have ax: "\<bar>x\<bar> = of_int \<bar>a\<bar> / of_int b" using assms(1) by (simp add: assms(4))
  show ?thesis
  proof (cases "- 1022 \<le> expo x")
    case True
    then have "ulp x / 2 = 2 powi (expo x - 52) / 2 powi 1" by (simp add: ulp_def max_def)
    also have "\<dots> = 2 powi (expo x - 52 - 1)" by (simp only: p2_diff)
    also have "expo x - 52 - 1 = expo x - 53" by simp
    also have "(2 :: rat) powi (expo x - 53) = 2 powi (expo x) / 2 powi 53" by (simp only: p2_diff)
    also have "\<dots> \<le> \<bar>x\<bar> / 2 powi 53"
      using expo_bounds(1) [OF assms(5)] by (intro divide_right_mono) simp_all
    also have "\<dots> = (of_int \<bar>a\<bar> / 2 powi 53) / of_int b" by (simp add: ax)
    also have "\<dots> < 1 / of_int b"
      using a53 bpos by (intro divide_strict_right_mono) simp_all
    finally show ?thesis .
  next
    case False
    then have "ulp x / 2 = 2 powi (- 1074) / 2 powi 1" by (simp add: ulp_def max_def)
    also have "\<dots> = 2 powi (- 1074 - 1)" by (simp only: p2_diff)
    also have "\<dots> < 2 powi (- 53)" by (simp only: p2_less_iff)
    also have "\<dots> = 1 / 2 powi 53" by (simp only: power_int_minus_divide)
    also have "\<dots> < 1 / of_int b"
      using b53 bpos by (intro divide_strict_left_mono) (simp_all add: mult_pos_pos)
    finally show ?thesis .
  qed
qed

lemma fl_floor_exact_pos:
  assumes "0 < b" and "\<bar>a\<bar> < 2 ^ 53" and "b < 2 ^ 53" and "x = of_int a / of_int b"
  shows "\<exists>r. fl x = Finite r \<and> \<lfloor>r\<rfloor> = \<lfloor>x\<rfloor>"
proof (cases "x = of_int \<lfloor>x\<rfloor>")
  case True
  have bpos: "(1 :: rat) \<le> of_int b"
  proof -
    from assms(1) have "1 \<le> b" by simp
    then have "(of_int 1 :: rat) \<le> of_int b" by (simp only: of_int_le_iff)
    then show ?thesis by simp
  qed
  have "\<bar>x\<bar> = of_int \<bar>a\<bar> / of_int b" using assms(1) by (simp add: assms(4))
  also have "\<dots> \<le> of_int \<bar>a\<bar> / 1" using bpos by (intro divide_left_mono) simp_all
  finally have "\<bar>of_int \<lfloor>x\<rfloor> :: rat\<bar> \<le> of_int \<bar>a\<bar>" using True by simp
  then have "(of_int \<bar>\<lfloor>x\<rfloor>\<bar> :: rat) \<le> of_int \<bar>a\<bar>" by simp
  then have "\<bar>\<lfloor>x\<rfloor>\<bar> \<le> \<bar>a\<bar>" by (simp only: of_int_le_iff)
  with assms(2) have "\<bar>\<lfloor>x\<rfloor>\<bar> \<le> 2 ^ 53" by simp
  then have "fl (of_int \<lfloor>x\<rfloor>) = Finite (of_int \<lfloor>x\<rfloor>)" by (rule fl_of_int)
  then have "fl x = Finite x" using True by simp
  then show ?thesis by blast
next
  case False
  then have x0: "x \<noteq> 0" by auto
  define n where "n = \<lfloor>x\<rfloor>"
  define r where "r = of_int (rne (x / ulp x)) * ulp x"
  have bpos: "(0 :: rat) < of_int b" using assms(1) by simp
  have nx: "of_int n < x" "x < of_int n + 1" using False unfolding n_def by linarith+
  have xb: "x * of_int b = of_int a" using assms(1) by (simp add: assms(4))
  have lo: "1 / of_int b \<le> x - of_int n"
  proof -
    have "of_int (n * b) < x * of_int b" using nx(1) bpos by simp
    then have "(of_int (n * b) :: rat) < of_int a" by (simp only: xb)
    then have "n * b < a" by (simp only: of_int_less_iff)
    then have "n * b + 1 \<le> a" by simp
    then have "(of_int (n * b + 1) :: rat) \<le> of_int a" by (simp only: of_int_le_iff)
    then have "of_int n * of_int b + 1 \<le> x * (of_int b :: rat)" by (simp add: xb)
    then have "1 \<le> (x - of_int n) * of_int b" by (simp add: algebra_simps)
    then show ?thesis using bpos by (simp add: pos_divide_le_eq)
  qed
  have hi: "1 / of_int b \<le> of_int n + 1 - x"
  proof -
    have "x * of_int b < of_int ((n + 1) * b)" using nx(2) bpos by simp
    then have "(of_int a :: rat) < of_int ((n + 1) * b)" by (simp only: xb)
    then have "a < (n + 1) * b" by (simp only: of_int_less_iff)
    then have "a + 1 \<le> (n + 1) * b" by simp
    then have "(of_int (a + 1) :: rat) \<le> of_int ((n + 1) * b)" by (simp only: of_int_le_iff)
    then have "x * (of_int b :: rat) + 1 \<le> (of_int n + 1) * of_int b" by (simp add: xb)
    then have "1 \<le> (of_int n + 1 - x) * of_int b" by (simp add: algebra_simps)
    then show ?thesis using bpos by (simp add: pos_divide_le_eq)
  qed
  have err: "\<bar>r - x\<bar> < 1 / of_int b"
    using rne_ulp_error [of x] half_ulp_small [OF assms x0] by (simp add: r_def)
  have r1: "of_int n < r" using err lo by linarith
  have r2: "r < of_int n + 1" using err hi by linarith
  have fr: "\<lfloor>r\<rfloor> = n" using r1 r2 by linarith
  have "\<bar>r\<bar> < of_int \<bar>n\<bar> + 1" using r1 r2 by linarith
  moreover have "\<bar>x\<bar> < 2 powi 53"
  proof -
    have "\<bar>x\<bar> = of_int \<bar>a\<bar> / of_int b" using assms(1) by (simp add: assms(4))
    also have "\<dots> \<le> of_int \<bar>a\<bar> / 1"
    proof -
      from assms(1) have "1 \<le> b" by simp
      then have "(of_int 1 :: rat) \<le> of_int b" by (simp only: of_int_le_iff)
      then show ?thesis by (intro divide_left_mono) simp_all
    qed
    also have "\<dots> < of_int (2 ^ 53)" using assms(2) by (simp only: of_int_less_iff div_by_1)
    finally show ?thesis by simp
  qed
  moreover have "(of_int \<bar>n\<bar> :: rat) \<le> \<bar>x\<bar> + 1" using nx by linarith
  ultimately have "\<bar>r\<bar> < 2 powi 53 + 2" by linarith
  also have "\<dots> \<le> 2 powi 54" by simp
  also have "\<dots> < (2 :: rat) powi 1024" by (simp only: p2_less_iff)
  finally have "\<not> 2 powi 1024 \<le> \<bar>r\<bar>" by simp
  then have "fl x = Finite r" using x0 by (simp add: fl_def Let_def r_def)
  then show ?thesis using fr by (simp add: n_def)
qed

lemma fl_floor_exact:
  assumes "b \<noteq> 0" and "\<bar>a\<bar> < 2 ^ 53" and "\<bar>b\<bar> < 2 ^ 53" and "x = of_int a / of_int b"
  shows "\<exists>r. fl x = Finite r \<and> \<lfloor>r\<rfloor> = \<lfloor>x\<rfloor>"
proof (cases "0 < b")
  case True
  then show ?thesis using assms by (intro fl_floor_exact_pos [of b a]) simp_all
next
  case False
  then have "0 < - b" using assms(1) by simp
  moreover have "x = of_int (- a) / of_int (- b)" by (simp add: assms(4))
  ultimately show ?thesis using assms(2,3) by (intro fl_floor_exact_pos [of "- b" "- a"]) simp_all
qed

lemma floor_rat_numeral [simp]: "\<lfloor>numeral a / numeral b :: rat\<rfloor> = numeral a div numeral b"
  using floor_divide_of_int_eq [of "numeral a" "numeral b", where ?'a = rat] by simp

lemma floor_rat_neg_numeral [simp]:
  "\<lfloor>- (numeral a / numeral b) :: rat\<rfloor> = - numeral a div numeral b"
  using floor_divide_of_int_eq [of "- numeral a" "numeral b", where ?'a = rat] by simp

lemma fl_eval:
  assumes "2 powi e \<le> \<bar>x\<bar>" and "\<bar>x\<bar> < 2 powi (e + 1)" and "- 1022 \<le> e" and "e < 1023"
  shows "fl x = Finite (of_int (rne (x * 2 powi (52 - e))) * 2 powi (e - 52))"
proof -
  have e: "expo x = e" using assms(1,2) by (rule expo_unique)
  have "(0 :: rat) < 2 powi e" by simp
  with assms(1) have "0 < \<bar>x\<bar>" by linarith
  then have x0: "x \<noteq> 0" by simp
  have u: "ulp x = 2 powi (e - 52)" using assms(3) by (simp add: ulp_def e max_def)
  have "x / ulp x = x * (1 / 2 powi (e - 52))" by (simp add: u)
  also have "1 / (2 :: rat) powi (e - 52) = 2 powi (- (e - 52))"
    by (simp only: power_int_minus_divide)
  also have "- (e - 52) = 52 - e" by simp
  finally have q: "x / ulp x = x * 2 powi (52 - e)" .
  define r where "r = of_int (rne (x / ulp x)) * ulp x"
  have "\<bar>r - x\<bar> \<le> ulp x / 2" using rne_ulp_error [of x] by (simp add: r_def)
  then have "\<bar>r\<bar> \<le> \<bar>x\<bar> + ulp x / 2" by linarith
  also have "\<dots> < 2 powi (e + 1) + ulp x / 2" using assms(2) by simp
  also have "ulp x / 2 \<le> 2 powi (e + 1)"
  proof -
    have "ulp x / 2 \<le> ulp x" by simp
    also have "\<dots> \<le> 2 powi (e + 1)" by (simp only: u p2_le_iff)
    finally show ?thesis .
  qed
  finally have "\<bar>r\<bar> < 2 * 2 powi (e + 1)" by simp
  also have "2 * (2 :: rat) powi (e + 1) = 2 powi 1 * 2 powi (e + 1)" by simp
  also have "\<dots> = 2 powi (1 + (e + 1))" by (simp only: p2_add)
  also have "\<dots> \<le> 2 powi 1024" using assms(4) by (simp only: p2_le_iff)
  finally have "\<not> 2 powi 1024 \<le> \<bar>r\<bar>" by simp
  then have "fl x = Finite r" using x0 by (simp add: fl_def Let_def r_def)
  then have "fl x = Finite (of_int (rne (x / ulp x)) * ulp x)" by (simp only: r_def)
  then have "fl x = Finite (of_int (rne (x * 2 powi (52 - e))) * ulp x)" by (simp only: q)
  then show ?thesis by (simp only: u)
qed

lemma fl_0 [simp]: "fl 0 = Finite 0"
  by (simp add: fl_def)

lemma fl_1 [simp]: "fl 1 = Finite 1"
  using fl_of_int [of 1] by simp

lemma fl_neg_1 [simp]: "fl (- 1) = Finite (- 1)"
  using fl_of_int [of "- 1"] by simp

lemma fl_numeral [simp]:
  "numeral k \<le> (9007199254740992 :: int) \<Longrightarrow> fl (numeral k) = Finite (numeral k)"
  using fl_of_int [of "numeral k"] by simp

lemma fl_neg_numeral [simp]:
  "numeral k \<le> (9007199254740992 :: int) \<Longrightarrow> fl (- numeral k) = Finite (- numeral k)"
  using fl_of_int [of "- numeral k"] by simp

lemma fl_numeral_half [simp]:
  "numeral k \<le> (9007199254740992 :: int) \<Longrightarrow> fl (numeral k / 2) = Finite (numeral k / 2)"
  using fl_dyadic [of "numeral k" 1] by simp


lemma js_sub_Finite [simp]: "js_sub (Finite x) (Finite y) = fl (x - y)"
  by (simp add: js_sub_def)

lemma lit_1_2_pos [simp]: "0 < lit_1_2"
  by (simp add: lit_1_2_def)

lemma lit_1_2_double: "fl (6 / 5) = Finite lit_1_2"
proof -
  have "fl (6 / 5) = Finite (of_int (rne ((6 / 5) * 2 powi (52 - 0))) * 2 powi (0 - 52))"
    by (rule fl_eval) simp_all
  also have "rne ((6 / 5) * 2 powi (52 - 0)) = 5404319552844595"
    by (simp add: rne_def Let_def)
  finally show ?thesis by (simp add: lit_1_2_def)
qed

lemma js_div_nonneg:
  assumes "0 \<le> x" and "0 < y"
  shows "js_div (Finite x) (Finite y) = PosInfinity
     \<or> (\<exists>r. js_div (Finite x) (Finite y) = Finite r \<and> 0 \<le> r)"
  using assms fl_nonneg [of "x / y"] by simp

lemma js_ge_div:
  assumes "0 \<le> x" and "0 < y"
  shows "js_ge (js_div (Finite x) (Finite y)) 0"
  using js_div_nonneg [OF assms] by auto

lemma js_gt_floor_div:
  assumes "0 \<le> x" and "0 < y"
  shows "js_gt (Math_floor (js_div (Finite x) (Finite y))) (- 1)"
proof -
  from js_div_nonneg [OF assms] show ?thesis
  proof
    assume "js_div (Finite x) (Finite y) = PosInfinity"
    then show ?thesis by simp
  next
    assume "\<exists>r. js_div (Finite x) (Finite y) = Finite r \<and> 0 \<le> r"
    then obtain r where r: "js_div (Finite x) (Finite y) = Finite r" "0 \<le> r" by blast
    then have "0 \<le> \<lfloor>r\<rfloor>" by simp
    then have "- 1 < (of_int \<lfloor>r\<rfloor> :: rat)" by linarith
    then show ?thesis unfolding r(1) by simp
  qed
qed

lemma floor_div_exact:
  assumes "sc = of_int p / of_int q" and "p \<noteq> 0" and "q \<noteq> 0"
    and "\<bar>a * q\<bar> < 2 ^ 53" and "\<bar>p\<bar> < 2 ^ 53"
  shows "Math_floor (js_div (Finite (of_int a)) (Finite sc)) = Finite (of_int \<lfloor>of_int a / sc\<rfloor>)"
proof -
  have sc: "sc \<noteq> 0" using assms(1-3) by simp
  have x: "of_int a / sc = of_int (a * q) / of_int p" by (simp add: assms(1))
  from fl_floor_exact [OF assms(2) assms(4) assms(5) x]
  obtain r where "fl (of_int a / sc) = Finite r" "\<lfloor>r\<rfloor> = \<lfloor>of_int a / sc\<rfloor>" by blast
  then show ?thesis using sc by simp
qed

section \<open>Lemmas on the document operations and the constructor\<close>

lemma upd_proj [simp]:
  "heap (upd r f w) = (heap w)(r := f (heap w r))"
  "optionsHeap (upd r f w) = optionsHeap w"
  "nextRef (upd r f w) = nextRef w"
  "onmousemove (upd r f w) = onmousemove w"
  by (simp_all add: upd_def)

lemma createCanvas_None:
  "createCanvas None wd ht rt w =
     (nextRef w,
      w\<lparr>nextRef := Suc (nextRef w),
         heap := (heap w)(nextRef w := (new_node ''canvas'')
             \<lparr>canvas_width := canvas_size 300 (js_mul (Finite wd) (Finite rt)),
              canvas_height := canvas_size 150 (js_mul (Finite ht) (Finite rt)),
              style_width := set_size wd Unset, style_height := set_size ht Unset,
              ctx := [SetTransform rt 0 0 rt 0 0]\<rparr>)\<rparr>)"
  by (simp add: createCanvas_def createElement_def Let_def upd_def new_node_def)

lemma createCanvas_Some:
  "createCanvas (Some cv) wd ht rt w =
     (cv, upd cv (\<lambda>n. n\<lparr>canvas_width := canvas_size 300 (js_mul (Finite wd) (Finite rt)),
              canvas_height := canvas_size 150 (js_mul (Finite ht) (Finite rt)),
              style_width := set_size wd (style_width n),
              style_height := set_size ht (style_height n),
              ctx := [SetTransform rt 0 0 rt 0 0]\<rparr>) w)"
  by (simp add: createCanvas_def Let_def upd_def)

lemma drawRuler_proj [simp]:
  "optionsHeap (drawRuler this w) = optionsHeap w"
  "nextRef (drawRuler this w) = nextRef w"
  "onmousemove (drawRuler this w) = onmousemove w"
  "r \<noteq> canvas this \<Longrightarrow> heap (drawRuler this w) r = heap w r"
  "listeners (heap (drawRuler this w) r) = listeners (heap w r)"
  "parentNode (heap (drawRuler this w) r) = parentNode (heap w r)"
  "childNodes (heap (drawRuler this w) r) = childNodes (heap w r)"
  "classList (heap (drawRuler this w) r) = classList (heap w r)"
  unfolding drawRuler_def drawPoints_def Let_def by simp_all

lemmas dom_defs = addClass_def removeClass_def addEventListener_def removeEventListener_def
  removeChild_def

lemma remove_node_fresh: "parentNode (heap w c) = None \<Longrightarrow> remove_node c w = w"
  by (simp add: remove_node_def)

lemma appendChild_fresh:
  "parentNode (heap w c) = None \<Longrightarrow>
   appendChild p c w =
     upd c (\<lambda>n. n\<lparr>parentNode := Some p\<rparr>) (upd p (\<lambda>n. n\<lparr>childNodes := childNodes n @ [c]\<rparr>) w)"
  by (simp add: appendChild_def remove_node_fresh)

lemma bind_eq [simp]:
  "fst (bind m w) = Bound (nextRef w) m"
  "snd (bind m w) = w\<lparr>nextRef := Suc (nextRef w)\<rparr>"
  by (simp_all add: bind_def)

lemma new_node_proj [simp]:
  "parentNode (new_node t) = None" "listeners (new_node t) = []" "classList (new_node t) = []"
  "childNodes (new_node t) = []"
  by (simp_all add: new_node_def)

lemma constructRuler_this:
  "fst (constructRuler this w) =
     this\<lparr>canvas := nextRef w,
          ruler := (ruler this)\<lparr>
             width := (if direction (optionsHeap w (options this)) = TB
                       then max (offsetWidth (heap w (el this))) (rulerWidth (optionsHeap w (options this)))
                       else max (offsetHeight (heap w (el this))) (rulerWidth (optionsHeap w (options this)))),
             height := rulerHeight (optionsHeap w (options this))\<rparr>\<rparr>"
  unfolding constructRuler_def Let_def split_def
  by (simp add: createCanvas_None)

lemma constructRuler_proj:
  "optionsHeap (snd (constructRuler this w)) = optionsHeap w"
  "nextRef (snd (constructRuler this w)) = Suc (Suc (Suc (nextRef w)))"
  "onmousemove (snd (constructRuler this w)) = onmousemove w"
  "r = nextRef w \<Longrightarrow> listeners (heap (snd (constructRuler this w)) r) =
     [(''mouseenter'', Bound (Suc (nextRef w)) ConstructIndicator),
      (''mousedown'', Bound (Suc (Suc (nextRef w))) ConstructGuide)]"
  "r = nextRef w \<Longrightarrow> parentNode (heap (snd (constructRuler this w)) r) = Some (el this)"
  "r = el this \<Longrightarrow> r \<noteq> nextRef w \<Longrightarrow>
     parentNode (heap (snd (constructRuler this w)) r) = parentNode (heap w r)"
  "r = el this \<Longrightarrow> r \<noteq> nextRef w \<Longrightarrow>
     childNodes (heap (snd (constructRuler this w)) r) = childNodes (heap w r) @ [nextRef w]"
  unfolding constructRuler_def Let_def split_def
  by (simp_all add: createCanvas_None appendChild_fresh dom_defs)

lemma new_RulerBuilder_this:
  "fst (new_RulerBuilder c p w) =
     \<lparr>el = c, canvas = Suc (nextRef w), indicator = None, indicatorValue = None,
      indicatorLineWidth = 1,
      ruler = \<lparr>orgPos = 0, thickness = 0,
               width = (if direction (spread default_options p) = TB
                        then max (offsetWidth (heap w c)) (rulerWidth (spread default_options p))
                        else max (offsetHeight (heap w c)) (rulerWidth (spread default_options p))),
               height = rulerHeight (spread default_options p)\<rparr>,
      guides = [], options = nextRef w\<rparr>"
  unfolding new_RulerBuilder_def Let_def
  by (simp add: constructRuler_this)

lemma new_RulerBuilder_proj:
  "optionsHeap (snd (new_RulerBuilder c p w)) = (optionsHeap w)(nextRef w := spread default_options p)"
  "nextRef (snd (new_RulerBuilder c p w)) = Suc (Suc (Suc (Suc (nextRef w))))"
  "onmousemove (snd (new_RulerBuilder c p w)) = onmousemove w"
  "listeners (heap (snd (new_RulerBuilder c p w)) (Suc (nextRef w))) =
     [(''mouseenter'', Bound (Suc (Suc (nextRef w))) ConstructIndicator),
      (''mousedown'', Bound (Suc (Suc (Suc (nextRef w)))) ConstructGuide)]"
  "parentNode (heap (snd (new_RulerBuilder c p w)) (Suc (nextRef w))) = Some c"
  "c \<noteq> Suc (nextRef w) \<Longrightarrow>
     parentNode (heap (snd (new_RulerBuilder c p w)) c) = parentNode (heap w c)"
  "c \<noteq> Suc (nextRef w) \<Longrightarrow>
     childNodes (heap (snd (new_RulerBuilder c p w)) c) = childNodes (heap w c) @ [Suc (nextRef w)]"
  unfolding new_RulerBuilder_def Let_def
  by (simp_all add: constructRuler_proj)

lemma page_proj [simp]:
  "nextRef page = 1" "parentNode (heap page 0) = None" "childNodes (heap page 0) = []"
  "onmousemove page = None" "offsetWidth (heap page 0) = 800" "offsetHeight (heap page 0) = 600"
  by (simp_all add: page_def new_node_def)

lemma spread_no_options [simp]: "spread default_options no_options = default_options"
  by (simp add: spread_def no_options_def or_else_def)

lemma spread_thickness_0 [simp]: "spread default_options thickness_0 = default_options\<lparr>rulerHeight := 0\<rparr>"
  by (simp add: spread_def thickness_0_def no_options_def or_else_def default_options_def)

lemma default_options_proj [simp]:
  "direction default_options = TB" "rulerWidth default_options = 1000"
  "rulerHeight default_options = 20" "scale default_options = 1" "offset default_options = 40"
  "ratio default_options = 2" "enableToolTip default_options = True"
  by (simp_all add: default_options_def)

lemma spread_scale_2 [simp]: "spread default_options scale_2 = default_options\<lparr>scale := 2\<rparr>"
  by (simp add: spread_def scale_2_def no_options_def or_else_def default_options_def)

lemma spread_scale_513_4096 [simp]:
  "spread default_options scale_513_4096 =
     default_options\<lparr>rulerHeight := 1, scale := 513 / 4096, offset := 0\<rparr>"
  by (simp add: spread_def scale_513_4096_def no_options_def or_else_def default_options_def)




lemma trunc_of_int [simp]: "trunc (of_int k) = k"
  by (simp add: trunc_def)

lemma js_rem_eq_0_iff: "b \<noteq> 0 \<Longrightarrow> js_rem (Finite a) b = Finite 0 \<longleftrightarrow> a / b \<in> \<int>"
proof
  assume b: "b \<noteq> 0" and "js_rem (Finite a) b = Finite 0"
  then have "a = b * of_int (trunc (a / b))" by simp
  then have "a / b = of_int (trunc (a / b))" using b
    by (metis nonzero_mult_div_cancel_left)
  then show "a / b \<in> \<int>" by (metis Ints_of_int)
next
  assume b: "b \<noteq> 0" and "a / b \<in> \<int>"
  then obtain k :: int where k: "a / b = of_int k" by (auto elim: Ints_cases)
  then have "a = b * of_int k" using b by (simp add: field_simps)
  then show "js_rem (Finite a) b = Finite 0" using k by simp
qed

lemma of_int_div_Ints_iff: "n \<noteq> 0 \<Longrightarrow> (of_int p :: rat) / of_int n \<in> \<int> \<longleftrightarrow> n dvd p"
proof
  assume n: "n \<noteq> 0" and "(of_int p :: rat) / of_int n \<in> \<int>"
  then obtain k :: int where "(of_int p :: rat) / of_int n = of_int k" by (auto elim: Ints_cases)
  then have "(of_int p :: rat) = of_int (k * n)" using n by (simp add: field_simps)
  then have "p = k * n" by (simp only: of_int_eq_iff)
  then show "n dvd p" by simp
next
  assume "n \<noteq> 0" and "n dvd p"
  then show "(of_int p :: rat) / of_int n \<in> \<int>" by (rule_tac of_int_divide_in_Ints)
qed

lemma drawPoint_cases:
  assumes "0 < sc" and "0 \<le> ht"
  shows "drawPoint ht off sc pos =
     (case js_sub (Finite (of_int pos)) (Finite off) of
        Finite delta \<Rightarrow>
          if delta < 0 then []
          else if delta / 50 \<in> \<int> then
            [MoveTo (js_add (Finite (of_int pos)) (Finite (1 / 2))) (js_add (Finite ht) (Finite (1 / 2))),
             LineTo (js_add (Finite (of_int pos)) (Finite (1 / 2))) (Finite 0),
             FillText (Math_floor (js_div (Finite delta) (Finite sc)))
               (js_add (Finite (of_int pos)) (Finite (5 / 2))) (js_div (Finite ht) (Finite (3 / 2)))]
          else if delta / 25 \<in> \<int> then
            [MoveTo (js_add (Finite (of_int pos)) (Finite (1 / 2))) (js_add (Finite ht) (Finite (1 / 2))),
             LineTo (js_add (Finite (of_int pos)) (Finite (1 / 2))) (js_div (Finite ht) (Finite (3 / 2)))]
          else if delta / 5 \<in> \<int> then
            [MoveTo (js_add (Finite (of_int pos)) (Finite (1 / 2))) (js_add (Finite ht) (Finite (1 / 2))),
             LineTo (js_add (Finite (of_int pos)) (Finite (1 / 2))) (js_div (Finite ht) (Finite lit_1_2))]
          else []
      | PosInfinity \<Rightarrow> []
      | NegInfinity \<Rightarrow> []
      | NaN \<Rightarrow> [])"
proof (cases "js_sub (Finite (of_int pos)) (Finite off)")
  case (Finite delta)
  have m: "js_ge (js_div (Finite ht) (Finite (3 / 2))) 0"
    by (rule js_ge_div [OF assms(2)]) simp
  have n: "js_ge (js_div (Finite ht) (Finite lit_1_2)) 0"
    by (rule js_ge_div [OF assms(2)]) simp
  show ?thesis
  proof (cases "delta < 0")
    case True
    then show ?thesis unfolding drawPoint_def Let_def Finite by simp
  next
    case False
    then have "0 \<le> delta" by simp
    then have lab: "js_gt (Math_floor (js_div (Finite delta) (Finite sc))) (- 1)"
      using assms(1) by (rule js_gt_floor_div)
    show ?thesis
      unfolding drawPoint_def Let_def Finite
      using False lab m n
      by (simp add: js_rem_eq_0_iff del: js_div.simps js_add.simps js_rem.simps)
  qed
next
  case PosInfinity
  then show ?thesis unfolding drawPoint_def Let_def by simp
next
  case NegInfinity
  then show ?thesis unfolding drawPoint_def Let_def by simp
next
  case NaN
  then show ?thesis unfolding drawPoint_def Let_def by simp
qed

lemma drawPoints_loop_eq:
  "drawPoints_loop wd ht off sc pos c = c @ concat (map (drawPoint ht off sc) [pos..\<lfloor>wd\<rfloor>])"
proof (induction wd ht off sc pos c rule: drawPoints_loop.induct)
  case (1 wd ht off sc pos c)
  show ?case
  proof (cases "of_int pos \<le> wd")
    case True
    then have "pos \<le> \<lfloor>wd\<rfloor>" by (simp add: le_floor_iff)
    then have "[pos..\<lfloor>wd\<rfloor>] = pos # [pos + 1..\<lfloor>wd\<rfloor>]" by (simp add: upto_rec1)
    then show ?thesis using True "1.IH" by (simp add: drawPoints_loop.simps [of wd ht off sc pos c])
  next
    case False
    then have "\<lfloor>wd\<rfloor> < pos" by (simp add: floor_less_iff)
    then show ?thesis using False by (simp add: drawPoints_loop.simps [of wd ht off sc pos c])
  qed
qed


lemma fl_int_half:
  assumes "\<bar>2 * p + numeral k\<bar> \<le> 2 ^ 53"
  shows "fl (of_int p + numeral k / 2) = Finite (of_int p + numeral k / 2)"
proof -
  have eq: "(of_int (2 * p + numeral k) :: rat) / 2 ^ 1 = of_int p + numeral k / 2"
    by (simp add: add_divide_distrib)
  have "fl (of_int (2 * p + numeral k) / 2 ^ 1) = Finite (of_int (2 * p + numeral k) / 2 ^ 1)"
    by (rule fl_dyadic [OF assms]) simp
  then show ?thesis by (simp only: eq)
qed

lemma drawPoint_unit:
  assumes "0 \<le> ht" and "0 \<le> p" and "p \<le> 200"
  shows "drawPoint ht 0 1 p =
     (if 50 dvd p then
        [MoveTo (Finite (of_int p + 1 / 2)) (js_add (Finite ht) (Finite (1 / 2))),
         LineTo (Finite (of_int p + 1 / 2)) (Finite 0),
         FillText (Finite (of_int p)) (Finite (of_int p + 5 / 2)) (js_div (Finite ht) (Finite (3 / 2)))]
      else if 25 dvd p then
        [MoveTo (Finite (of_int p + 1 / 2)) (js_add (Finite ht) (Finite (1 / 2))),
         LineTo (Finite (of_int p + 1 / 2)) (js_div (Finite ht) (Finite (3 / 2)))]
      else if 5 dvd p then
        [MoveTo (Finite (of_int p + 1 / 2)) (js_add (Finite ht) (Finite (1 / 2))),
         LineTo (Finite (of_int p + 1 / 2)) (js_div (Finite ht) (Finite lit_1_2))]
      else [])"
proof -
  have d: "(of_int p :: rat) / 50 \<in> \<int> \<longleftrightarrow> 50 dvd p" "(of_int p :: rat) / 25 \<in> \<int> \<longleftrightarrow> 25 dvd p"
    "(of_int p :: rat) / 5 \<in> \<int> \<longleftrightarrow> 5 dvd p"
    using of_int_div_Ints_iff [of 50 p] of_int_div_Ints_iff [of 25 p] of_int_div_Ints_iff [of 5 p]
    by simp_all
  have b: "\<bar>p\<bar> \<le> 2 ^ 53" using assms(2,3) by simp
  have f: "fl (of_int p) = Finite (of_int p)" by (rule fl_of_int [OF b])
  have s: "js_sub (Finite (of_int p)) (Finite 0) = Finite (of_int p)" by (simp add: f)
  have x1: "js_add (Finite (of_int p)) (Finite (1 / 2)) = Finite (of_int p + 1 / 2)"
    using fl_int_half [of p Num.One] assms(2,3) by simp
  have x5: "js_add (Finite (of_int p)) (Finite (5 / 2)) = Finite (of_int p + 5 / 2)"
    using fl_int_half [of p "Num.Bit1 (Num.Bit0 Num.One)"] assms(2,3) by simp
  have l: "Math_floor (js_div (Finite (of_int p)) (Finite 1)) = Finite (of_int p)"
    by (simp add: f)
  have p0: "\<not> (of_int p :: rat) < 0" using assms(2) by simp
  have "0 < (1 :: rat)" by simp
  note c = drawPoint_cases [OF this assms(1), of 0 p]
  show ?thesis
    unfolding c s jsnumber.case x1 x5 l
    using p0 by (simp only: d if_False)
qed

lemma in_loop_200:
  "0 \<le> p \<Longrightarrow> p \<le> 200 \<Longrightarrow> x \<in> set (drawPoint ht 0 1 p)
     \<Longrightarrow> x \<in> set (drawPoints_loop 200 ht 0 1 0 [])"
  by (auto simp: drawPoints_loop_eq)

lemma ticks_200:
  assumes "0 \<le> ht"
  shows "(\<exists>y. LineTo (Finite (of_int p + 1 / 2)) y \<in> set (drawPoints_loop 200 ht 0 1 0 []))
           \<longleftrightarrow> 0 \<le> p \<and> p \<le> 200 \<and> 5 dvd p"
proof
  assume "\<exists>y. LineTo (Finite (of_int p + 1 / 2)) y \<in> set (drawPoints_loop 200 ht 0 1 0 [])"
  then obtain y p' where p': "0 \<le> p'" "p' \<le> 200"
    and m: "LineTo (Finite (of_int p + 1 / 2)) y \<in> set (drawPoint ht 0 1 p')"
    by (auto simp: drawPoints_loop_eq)
  from m have "5 dvd p' \<and> p' = p"
    by (auto simp: drawPoint_unit [OF assms p'] split: if_splits)
  with p' show "0 \<le> p \<and> p \<le> 200 \<and> 5 dvd p" by auto
next
  assume a: "0 \<le> p \<and> p \<le> 200 \<and> 5 dvd p"
  then have "LineTo (Finite (of_int p + 1 / 2))
               (if 50 dvd p then Finite 0
                else if 25 dvd p then js_div (Finite ht) (Finite (3 / 2))
                else js_div (Finite ht) (Finite lit_1_2))
             \<in> set (drawPoint ht 0 1 p)"
    by (simp add: drawPoint_unit [OF assms] del: js_div.simps)
  then have "\<exists>y. LineTo (Finite (of_int p + 1 / 2)) y \<in> set (drawPoint ht 0 1 p)" by blast
  with a show "\<exists>y. LineTo (Finite (of_int p + 1 / 2)) y \<in> set (drawPoints_loop 200 ht 0 1 0 [])"
    by (blast intro: in_loop_200)
qed

lemma labels_200:
  assumes "0 \<le> ht"
  shows "FillText l x y \<in> set (drawPoints_loop 200 ht 0 1 0 [])
           \<longleftrightarrow> (\<exists>p. 0 \<le> p \<and> p \<le> 200 \<and> 50 dvd p \<and> l = Finite (of_int p)
                     \<and> x = Finite (of_int p + 5 / 2) \<and> y = js_div (Finite ht) (Finite (3 / 2)))"
proof
  assume "FillText l x y \<in> set (drawPoints_loop 200 ht 0 1 0 [])"
  then obtain p where p: "0 \<le> p" "p \<le> 200"
    and m: "FillText l x y \<in> set (drawPoint ht 0 1 p)"
    by (auto simp: drawPoints_loop_eq)
  from m have "50 dvd p \<and> l = Finite (of_int p) \<and> x = Finite (of_int p + 5 / 2)
      \<and> y = js_div (Finite ht) (Finite (3 / 2))"
    by (auto simp: drawPoint_unit [OF assms p] simp del: js_div.simps split: if_splits)
  with p show "\<exists>p. 0 \<le> p \<and> p \<le> 200 \<and> 50 dvd p \<and> l = Finite (of_int p)
                     \<and> x = Finite (of_int p + 5 / 2) \<and> y = js_div (Finite ht) (Finite (3 / 2))"
    by blast
next
  assume "\<exists>p. 0 \<le> p \<and> p \<le> 200 \<and> 50 dvd p \<and> l = Finite (of_int p)
                     \<and> x = Finite (of_int p + 5 / 2) \<and> y = js_div (Finite ht) (Finite (3 / 2))"
  then obtain p where a: "0 \<le> p" "p \<le> 200" "50 dvd p" "l = Finite (of_int p)"
     "x = Finite (of_int p + 5 / 2)" "y = js_div (Finite ht) (Finite (3 / 2))" by blast
  then have "FillText l x y \<in> set (drawPoint ht 0 1 p)"
    by (simp add: drawPoint_unit [OF assms] del: js_div.simps)
  with a show "FillText l x y \<in> set (drawPoints_loop 200 ht 0 1 0 [])"
    by (blast intro: in_loop_200)
qed


lemma drawPoints_ctx:
  "ctx (heap (drawPoints this w) (canvas this)) =
     ctx (heap w (canvas this))
     @ concat (map (drawPoint (height (ruler this)) (offset (optionsHeap w (options this)))
                      (scale (optionsHeap w (options this))))
                 [0..\<lfloor>width (ruler this)\<rfloor>])"
  by (simp add: drawPoints_def Let_def drawPoints_loop_eq)

lemma updateToolTip_proj [simp]:
  "optionsHeap (updateToolTip this x y w) = optionsHeap w"
  "nextRef (updateToolTip this x y w) = nextRef w"
  "onmousemove (updateToolTip this x y w) = onmousemove w"
  "style_left (heap (updateToolTip this x y w) r) = style_left (heap w r)"
  "style_top (heap (updateToolTip this x y w) r) = style_top (heap w r)"
  by (simp_all add: updateToolTip_def Let_def)

lemma run_move_proj [simp]:
  "onmousemove (run_move c evt w) = onmousemove w"
  "optionsHeap (run_move c evt w) = optionsHeap w"
  "style_left (heap (run_move c evt w) (guideLine (self c))) =
     Px (min (max (clientX evt - diffX c) 0) (cWi c - eWi c))"
  "style_top (heap (run_move c evt w) (guideLine (self c))) =
     Px (min (max (clientY evt - diffY c) 0) (cHe c - eHe c))"
  unfolding run_move_def Let_def by (simp_all add: pixelize_def)

lemma document_mousemove_slot [simp]:
  "onmousemove (document_mousemove evt w) = onmousemove w"
  by (simp add: document_mousemove_def split: option.splits)

lemma fold_mousemove_slot [simp]:
  "onmousemove (fold document_mousemove evs w) = onmousemove w"
  by (induction evs arbitrary: w) simp_all

lemma startMoving_slot:
  assumes "startMoving this e w = Inr w1"
  shows "\<exists>dc c. dragContainer this = Some dc \<and> onmousemove w1 = Some c \<and> self c = this
           \<and> cWi c = offsetWidth (heap w dc) \<and> eWi c = offsetWidth (heap w (guideLine this))
           \<and> cHe c = offsetHeight (heap w dc) \<and> eHe c = offsetHeight (heap w (guideLine this))
           \<and> diffX c = clientX e - parseInt_or_0 (style_left (heap w (guideLine this)))
           \<and> diffY c = clientY e - parseInt_or_0 (style_top (heap w (guideLine this)))"
  using assms unfolding startMoving_def Let_def showToolTip_def
  by (auto simp: addClass_def split: option.splits if_splits)


lemma guide_page_proj [simp]:
  "nextRef guide_page = 6" "onmousemove guide_page = None"
  "optionsHeap guide_page 5 = default_options\<lparr>scale := 2\<rparr>"
  "optionsHeap guide_page 4 = default_options"
  "heap guide_page 0 = (new_node ''div'')\<lparr>childNodes := [1, 2], offsetWidth := 800, offsetHeight := 600\<rparr>"
  "heap guide_page 1 = (new_node ''div'')\<lparr>classList := [''ruler-wrapper''], parentNode := Some 0,
                                    offsetWidth := 800, offsetHeight := 600\<rparr>"
  "heap guide_page (Suc 0) = (new_node ''div'')\<lparr>classList := [''ruler-wrapper''], parentNode := Some 0,
                                    offsetWidth := 800, offsetHeight := 600\<rparr>"
  "heap guide_page 2 = (new_node ''div'')\<lparr>classList := [''lines-wrapper''], parentNode := Some 0,
                                    childNodes := [3]\<rparr>"
  "heap guide_page 3 = (new_node ''div'')\<lparr>classList := [''ruler-line''], parentNode := Some 2,
                                    offsetWidth := 1, offsetHeight := 600\<rparr>"
  by (simp_all add: guide_page_def)

lemma guide_page_drag_container: "querySelector 0 ''ruler-wrapper'' guide_page = Some 1"
  by code_simp

lemma new_GuideLine_this:
  "new_GuideLine e0 gl opts ev w = Inr (this, w1) \<Longrightarrow>
     this = \<lparr>gl_el = e0, guideLine = gl, gl_options = opts, event = ev,
             dragContainer = querySelector e0 ''ruler-wrapper'' w\<rparr>"
  unfolding new_GuideLine_def Let_def by (auto split: sum.splits)

lemma startMoving_guide_3:
  "startMoving guide_3 \<lparr>clientX = 0, clientY = 0\<rparr> guide_page = Inr moving_page"
  unfolding moving_page_def startMoving_def Let_def
  by (simp add: guide_3_def)

lemma moving_page_slot:
  "onmousemove moving_page =
     Some \<lparr>self = guide_3, diffX = 0, diffY = 0, cWi = 800, eWi = 1, cHe = 600, eHe = 600\<rparr>"
  unfolding moving_page_def startMoving_def Let_def showToolTip_def
  by (simp add: guide_3_def addClass_def new_node_def)

lemma addEventListener_proj [simp]:
  "optionsHeap (addEventListener r ty h w) = optionsHeap w"
  "nextRef (addEventListener r ty h w) = nextRef w"
  "onmousemove (addEventListener r ty h w) = onmousemove w"
  "style_left (heap (addEventListener r ty h w) x) = style_left (heap w x)"
  "style_top (heap (addEventListener r ty h w) x) = style_top (heap w x)"
  "classList (heap (addEventListener r ty h w) x) = classList (heap w x)"
  by (simp_all add: addEventListener_def)

lemma startMoving_class:
  assumes "startMoving this e w = Inr w1"
  shows "''rul_line_dragged'' \<in> set (classList (heap w1 (guideLine this)))"
  using assms unfolding startMoving_def Let_def showToolTip_def
  by (auto simp: addClass_def split: option.splits if_splits)

lemma new_GuideLine_guide_page:
  "new_GuideLine 0 3 5 \<lparr>clientX = 0, clientY = 0\<rparr> guide_page = Inr (guide_3, dragging_page)"
  unfolding dragging_page_def new_GuideLine_def Let_def guide_page_drag_container startMoving_def
  by (simp add: guide_3_def)

lemma upd_same: "upd r f (upd r g w) = upd r (\<lambda>n. f (g n)) w"
  by (simp add: upd_def)

lemma upd_slot: "upd r f (w\<lparr>onmousemove := m\<rparr>) = (upd r f w)\<lparr>onmousemove := m\<rparr>"
  by (simp add: upd_def)

lemma stopMoving_eq:
  "stopMoving this w =
     (upd (guideLine this)
        (\<lambda>n. n\<lparr>style_cursor := [],
                classList := removeAll ''rul_line_dragged'' (removeAll ''rul_tooltip'' (classList n))\<rparr>)
        (upd (gl_el this) (\<lambda>n. n\<lparr>style_cursor := []\<rparr>) w))\<lparr>onmousemove := None\<rparr>"
  unfolding stopMoving_def Let_def hideToolTip_def removeClass_def
  by (simp add: upd_same upd_slot)


lemma parentNode_detached [simp]:
  "parentNode (heap (detached this w) x) = parentNode (heap w x)"
  by (simp add: detached_def)

lemma GuideLine_destroy_eq:
  "GuideLine_destroy this w =
     (case parentNode (heap w (guideLine this)) of
        None \<Rightarrow> detached this w
      | Some p \<Rightarrow> upd (guideLine this) (\<lambda>n. n\<lparr>parentNode := None\<rparr>)
                   (upd p (\<lambda>n. n\<lparr>childNodes := removeAll (guideLine this) (childNodes n)\<rparr>)
                      (detached this w)))"
proof -
  have "removeEventListener (guideLine this) ''dblclick'' GuideLine_dblclick
          (removeEventListener (guideLine this) ''mouseup'' GuideLine_stopMoving
            (removeEventListener (guideLine this) ''mousedown'' GuideLine_mousedown
              (stopMoving this w))) = detached this w"
    by (simp add: stopMoving_eq removeEventListener_def upd_same upd_slot detached_def)
  then show ?thesis
    unfolding GuideLine_destroy_def Let_def removeChild_def by (simp split: option.splits)
qed

lemma GuideLine_destroy_world [simp]:
  "optionsHeap (GuideLine_destroy this w) = optionsHeap w"
  "nextRef (GuideLine_destroy this w) = nextRef w"
  "onmousemove (GuideLine_destroy this w) = None"
  by (simp_all add: GuideLine_destroy_eq detached_def split: option.splits)

lemma GuideLine_destroy_changed:
  "style_cursor (heap (GuideLine_destroy this w) x) =
     (if x = gl_el this \<or> x = guideLine this then [] else style_cursor (heap w x))"
  "classList (heap (GuideLine_destroy this w) x) =
     (if x = guideLine this
      then removeAll ''rul_line_dragged'' (removeAll ''rul_tooltip'' (classList (heap w x)))
      else classList (heap w x))"
  "listeners (heap (GuideLine_destroy this w) x) =
     (if x = guideLine this
      then removeAll (''dblclick'', GuideLine_dblclick)
             (removeAll (''mouseup'', GuideLine_stopMoving)
               (removeAll (''mousedown'', GuideLine_mousedown) (listeners (heap w x))))
      else listeners (heap w x))"
  "parentNode (heap (GuideLine_destroy this w) x) =
     (if x = guideLine this then None else parentNode (heap w x))"
  "childNodes (heap (GuideLine_destroy this w) x) =
     (if parentNode (heap w (guideLine this)) = Some x
      then removeAll (guideLine this) (childNodes (heap w x))
      else childNodes (heap w x))"
  by (simp_all add: GuideLine_destroy_eq detached_def split: option.splits)

lemma GuideLine_destroy_kept [simp]:
  "tagName (heap (GuideLine_destroy this w) x) = tagName (heap w x)"
  "style_left (heap (GuideLine_destroy this w) x) = style_left (heap w x)"
  "style_top (heap (GuideLine_destroy this w) x) = style_top (heap w x)"
  "style_width (heap (GuideLine_destroy this w) x) = style_width (heap w x)"
  "style_height (heap (GuideLine_destroy this w) x) = style_height (heap w x)"
  "style_display (heap (GuideLine_destroy this w) x) = style_display (heap w x)"
  "title (heap (GuideLine_destroy this w) x) = title (heap w x)"
  "dataset_tip (heap (GuideLine_destroy this w) x) = dataset_tip (heap w x)"
  "innerHTML (heap (GuideLine_destroy this w) x) = innerHTML (heap w x)"
  "offsetLeft (heap (GuideLine_destroy this w) x) = offsetLeft (heap w x)"
  "offsetTop (heap (GuideLine_destroy this w) x) = offsetTop (heap w x)"
  "offsetWidth (heap (GuideLine_destroy this w) x) = offsetWidth (heap w x)"
  "offsetHeight (heap (GuideLine_destroy this w) x) = offsetHeight (heap w x)"
  "canvas_width (heap (GuideLine_destroy this w) x) = canvas_width (heap w x)"
  "canvas_height (heap (GuideLine_destroy this w) x) = canvas_height (heap w x)"
  "ctx (heap (GuideLine_destroy this w) x) = ctx (heap w x)"
  by (simp_all add: GuideLine_destroy_eq detached_def split: option.splits)

lemma GuideLine_destroy_twice:
  "GuideLine_destroy this (GuideLine_destroy this w) = GuideLine_destroy this w"
proof (rule world.equality)
  show "heap (GuideLine_destroy this (GuideLine_destroy this w)) = heap (GuideLine_destroy this w)"
  proof (rule ext)
    fix x
    show "heap (GuideLine_destroy this (GuideLine_destroy this w)) x = heap (GuideLine_destroy this w) x"
      by (rule node.equality) (simp_all add: GuideLine_destroy_changed)
  qed
qed simp_all


lemma stopMoving_twice: "stopMoving this (stopMoving this w) = stopMoving this w"
proof (rule world.equality)
  show "heap (stopMoving this (stopMoving this w)) = heap (stopMoving this w)"
  proof (rule ext)
    fix x
    show "heap (stopMoving this (stopMoving this w)) x = heap (stopMoving this w) x"
      by (rule node.equality) (simp_all add: stopMoving_eq)
  qed
qed (simp_all add: stopMoving_eq)

lemma stopMoving_after_destroy:
  "stopMoving this (GuideLine_destroy this w) = GuideLine_destroy this w"
proof (rule world.equality)
  show "heap (stopMoving this (GuideLine_destroy this w)) = heap (GuideLine_destroy this w)"
  proof (rule ext)
    fix x
    show "heap (stopMoving this (GuideLine_destroy this w)) x = heap (GuideLine_destroy this w) x"
      by (rule node.equality) (simp_all add: stopMoving_eq GuideLine_destroy_changed)
  qed
qed (simp_all add: stopMoving_eq)

lemma startMoving_listeners:
  assumes "startMoving this e w = Inr w1"
  shows "listeners (heap w1 x) = listeners (heap w x)"
  using assms unfolding startMoving_def Let_def showToolTip_def
  by (auto simp: addClass_def split: option.splits if_splits)

lemma new_GuideLine_listeners:
  assumes "new_GuideLine e0 gl opts ev w0 = Inr (this, w)" and "listeners (heap w0 gl) = []"
  shows "listeners (heap w gl) =
     [(''mousedown'', GuideLine_mousedown), (''mouseup'', GuideLine_stopMoving),
      (''dblclick'', GuideLine_dblclick)]"
proof -
  let ?w3 = "addEventListener gl ''dblclick'' GuideLine_dblclick
             (addEventListener gl ''mouseup'' GuideLine_stopMoving
               (addEventListener gl ''mousedown'' GuideLine_mousedown w0))"
  from assms(1) have s: "startMoving this ev ?w3 = Inr w"
    unfolding new_GuideLine_def Let_def by (auto split: sum.splits)
  have "listeners (heap ?w3 gl) =
     [(''mousedown'', GuideLine_mousedown), (''mouseup'', GuideLine_stopMoving),
      (''dblclick'', GuideLine_dblclick)]"
    using assms(2) by (simp add: addEventListener_def)
  then show ?thesis using startMoving_listeners [OF s] by simp
qed


lemma startMoving_options:
  assumes "startMoving this e w = Inr w1"
  shows "optionsHeap w1 = optionsHeap w"
  using assms unfolding startMoving_def Let_def showToolTip_def
  by (auto simp: addClass_def split: option.splits if_splits)

lemma moving_page_options [simp]: "optionsHeap moving_page = optionsHeap guide_page"
  by (rule startMoving_options [OF startMoving_guide_3])

lemma guide_3_proj [simp]:
  "gl_el guide_3 = 0" "guideLine guide_3 = 3" "gl_options guide_3 = 5"
  "dragContainer guide_3 = Some 1"
  by (simp_all add: guide_3_def)

lemma setScale_proj:
  "fst (setScale this s w) = this"
  "optionsHeap (snd (setScale this s w)) =
     (optionsHeap w)(options this := (optionsHeap w (options this))\<lparr>scale := s\<rparr>)"
  unfolding setScale_def Let_def by simp_all

lemma setSize_proj:
  "optionsHeap (snd (setSize this wi h s w)) =
     (optionsHeap w)(options this :=
        (optionsHeap w (options this))\<lparr>rulerWidth := wi, rulerHeight := h, scale := s\<rparr>)"
  "height (ruler (fst (setSize this wi h s w))) = h"
  "guides (fst (setSize this wi h s w)) = guides this"
  "options (fst (setSize this wi h s w)) = options this"
  unfolding setSize_def Let_def split_def by (simp_all add: createCanvas_Some)

lemma remove_node_listeners [simp]:
  "listeners (heap (remove_node c w) x) = listeners (heap w x)"
  by (simp add: remove_node_def removeChild_def split: option.splits)

lemma removeEventListener_proj [simp]:
  "nextRef (removeEventListener r ty h w) = nextRef w"
  "optionsHeap (removeEventListener r ty h w) = optionsHeap w"
  by (simp_all add: removeEventListener_def)

lemma destroy_listeners:
  assumes "guides this = []"
    and "\<forall>m. (''mouseenter'', Bound (nextRef w) m) \<notin> set (listeners (heap w (canvas this)))"
    and "\<forall>m. (''mousedown'', Bound (Suc (nextRef w)) m) \<notin> set (listeners (heap w (canvas this)))"
  shows "listeners (heap (snd (destroy this w)) (canvas this)) = listeners (heap w (canvas this))"
  using assms unfolding destroy_def clearGuides_def Let_def split_def
  by (simp add: removeEventListener_def)

lemma remove_node_parent [simp]: "parentNode (heap (remove_node c w) c) = None"
  by (simp add: remove_node_def removeChild_def split: option.splits)

lemma destroy_this:
  "guides (fst (destroy this w)) = []" "el (fst (destroy this w)) = el this"
  unfolding destroy_def clearGuides_def Let_def split_def by simp_all

lemma destroy_parent: "parentNode (heap (snd (destroy this w)) (el this)) = None"
  unfolding destroy_def clearGuides_def Let_def split_def by simp

lemma find_desc_Nil [simp]: "find_desc k h c [] = None"
  by (cases k) simp_all

lemma find_desc_Cons:
  "0 < k \<Longrightarrow> find_desc k h c (r # rs) =
     (if c \<in> set (classList (h r)) then Some r
      else (case find_desc (k - 1) h c (childNodes (h r)) of
              Some x \<Rightarrow> Some x
            | None \<Rightarrow> find_desc (k - 1) h c rs))"
  by (cases k) (simp_all split: option.splits)

lemma createElement_proj [simp]:
  "fst (createElement tag w) = nextRef w"
  "nextRef (snd (createElement tag w)) = Suc (nextRef w)"
  "optionsHeap (snd (createElement tag w)) = optionsHeap w"
  "onmousemove (snd (createElement tag w)) = onmousemove w"
  "heap (snd (createElement tag w)) = (heap w)(nextRef w := new_node tag)"
  by (simp_all add: createElement_def)

lemma addClass_proj [simp]:
  "nextRef (addClass r c w) = nextRef w"
  "optionsHeap (addClass r c w) = optionsHeap w"
  "onmousemove (addClass r c w) = onmousemove w"
  "parentNode (heap (addClass r c w) x) = parentNode (heap w x)"
  "childNodes (heap (addClass r c w) x) = childNodes (heap w x)"
  "listeners (heap (addClass r c w) x) = listeners (heap w x)"
  "x \<noteq> r \<Longrightarrow> heap (addClass r c w) x = heap w x"
  by (simp_all add: addClass_def)

lemma guide_made_proj [simp]:
  "nextRef (guide_made this e w) = Suc (nextRef w)"
  "optionsHeap (guide_made this e w) = optionsHeap w"
  "onmousemove (guide_made this e w) = onmousemove w"
  "x \<noteq> nextRef w \<Longrightarrow> heap (guide_made this e w) x = heap w x"
  "parentNode (heap (guide_made this e w) (nextRef w)) = None"
  "listeners (heap (guide_made this e w) (nextRef w)) = []"
  "childNodes (heap (guide_made this e w) (nextRef w)) = []"
  "classList (heap (guide_made this e w) (nextRef w)) = [''ruler-line'']"
  unfolding guide_made_def Let_def split_def
  by (simp_all add: addClass_def new_node_def)

lemma constructGuide_eq:
  "constructGuide this e w =
     (this,
      case querySelector (el this) ''lines-wrapper'' (guide_made this e w) of
        Some r \<Rightarrow> appendChild r (nextRef w) (guide_made this e w)
      | None \<Rightarrow>
          appendChild (Suc (nextRef w)) (nextRef w)
            (appendChild (el this) (Suc (nextRef w))
               (addClass (Suc (nextRef w)) ''lines-wrapper''
                  (snd (createElement ''div'' (guide_made this e w))))))"
proof -
  have g: "fst (createElement ''div'' w) = nextRef w" by simp
  show ?thesis
  proof (cases "direction (optionsHeap w (options this)) = TB")
    case True
    then show ?thesis
      unfolding constructGuide_def guide_made_def Let_def split_def g
      by (simp split: option.splits)
  next
    case False
    then show ?thesis
      unfolding constructGuide_def guide_made_def Let_def split_def g
      by (simp split: option.splits)
  qed
qed


lemma remove_node_proj [simp]:
  "nextRef (remove_node c w) = nextRef w"
  "optionsHeap (remove_node c w) = optionsHeap w"
  "onmousemove (remove_node c w) = onmousemove w"
  "classList (heap (remove_node c w) x) = classList (heap w x)"
  by (simp_all add: remove_node_def removeChild_def split: option.splits)

lemma appendChild_proj [simp]:
  "nextRef (appendChild p c w) = nextRef w"
  "optionsHeap (appendChild p c w) = optionsHeap w"
  "onmousemove (appendChild p c w) = onmousemove w"
  "listeners (heap (appendChild p c w) x) = listeners (heap w x)"
  "classList (heap (appendChild p c w) x) = classList (heap w x)"
  "parentNode (heap (appendChild p c w) c) = Some p"
  by (simp_all add: appendChild_def)

lemma appendChild_member: "c \<in> set (childNodes (heap (appendChild p c w) p))"
  by (simp add: appendChild_def)

lemma constructGuide_this: "fst (constructGuide this e w) = this"
  by (simp add: constructGuide_eq)

lemma constructGuide_slot:
  "onmousemove (snd (constructGuide this e w)) = onmousemove w"
  by (simp add: constructGuide_eq split: option.splits)

lemma constructGuide_listeners:
  "listeners (heap (snd (constructGuide this e w)) (nextRef w)) = []"
  by (simp add: constructGuide_eq split: option.splits)

lemma constructGuide_attached:
  "\<exists>wp. parentNode (heap (snd (constructGuide this e w)) (nextRef w)) = Some wp
        \<and> nextRef w \<in> set (childNodes (heap (snd (constructGuide this e w)) wp))"
  by (simp add: constructGuide_eq appendChild_member split: option.splits)

lemma clearGuides_empty: "guides this = [] \<Longrightarrow> clearGuides this w = (this, w)"
  by (simp add: clearGuides_def)

lemma constructGuide_new_wrapper:
  assumes "querySelector (el this) ''lines-wrapper'' (guide_made this e w) = None"
    and "el this \<noteq> nextRef w" and "el this \<noteq> Suc (nextRef w)"
  shows "parentNode (heap (snd (constructGuide this e w)) (nextRef w)) = Some (Suc (nextRef w))"
    and "childNodes (heap (snd (constructGuide this e w)) (Suc (nextRef w))) = [nextRef w]"
    and "classList (heap (snd (constructGuide this e w)) (nextRef w)) = [''ruler-line'']"
    and "classList (heap (snd (constructGuide this e w)) (Suc (nextRef w))) = [''lines-wrapper'']"
proof -
  let ?g = "nextRef w" and ?r = "Suc (nextRef w)"
  let ?i0 = "addClass ?r ''lines-wrapper'' (snd (createElement ''div'' (guide_made this e w)))"
  let ?i1 = "appendChild (el this) ?r ?i0"
  have w1: "snd (constructGuide this e w) = appendChild ?r ?g ?i1"
    by (simp add: constructGuide_eq assms(1))
  have p0: "parentNode (heap ?i0 ?r) = None" by simp
  have i1: "?i1 = upd ?r (\<lambda>n. n\<lparr>parentNode := Some (el this)\<rparr>)
                    (upd (el this) (\<lambda>n. n\<lparr>childNodes := childNodes n @ [?r]\<rparr>) ?i0)"
    by (rule appendChild_fresh [OF p0])
  have p1: "parentNode (heap ?i1 ?g) = None"
    using assms(2) by (simp add: i1)
  have c1: "childNodes (heap ?i1 ?r) = []"
    using assms(3) by (simp add: i1)
  have f: "appendChild ?r ?g ?i1 = upd ?g (\<lambda>n. n\<lparr>parentNode := Some ?r\<rparr>)
                    (upd ?r (\<lambda>n. n\<lparr>childNodes := childNodes n @ [?g]\<rparr>) ?i1)"
    by (rule appendChild_fresh [OF p1])
  show "parentNode (heap (snd (constructGuide this e w)) ?g) = Some ?r"
    by (simp add: w1)
  show "childNodes (heap (snd (constructGuide this e w)) ?r) = [?g]"
    by (simp add: w1 f c1)
  show "classList (heap (snd (constructGuide this e w)) ?g) = [''ruler-line'']"
    by (simp add: w1)
  show "classList (heap (snd (constructGuide this e w)) ?r) = [''lines-wrapper'']"
    by (simp add: w1 addClass_def new_node_def)
qed

lemma constructRuler_canvas:
  "r = nextRef w \<Longrightarrow> classList (heap (snd (constructRuler this w)) r) = [''canvas-ruler'']"
  "r = nextRef w \<Longrightarrow> el this \<noteq> nextRef w \<Longrightarrow>
     childNodes (heap (snd (constructRuler this w)) r) = []"
  unfolding constructRuler_def Let_def split_def
  by (simp_all add: createCanvas_None appendChild_fresh dom_defs)

lemma new_RulerBuilder_canvas:
  "classList (heap (snd (new_RulerBuilder c p w)) (Suc (nextRef w))) = [''canvas-ruler'']"
  "c \<noteq> Suc (nextRef w) \<Longrightarrow> childNodes (heap (snd (new_RulerBuilder c p w)) (Suc (nextRef w))) = []"
  unfolding new_RulerBuilder_def Let_def
  by (simp_all add: constructRuler_canvas)

lemma page_builder_facts:
  "el (fst (new_RulerBuilder 0 no_options page)) = 0"
  "guides (fst (new_RulerBuilder 0 no_options page)) = []"
  "nextRef (snd (new_RulerBuilder 0 no_options page)) = 5"
  "childNodes (heap (snd (new_RulerBuilder 0 no_options page)) 0) = [2]"
  by (simp_all add: new_RulerBuilder_this new_RulerBuilder_proj)

lemma page_builder_canvas:
  "classList (heap (snd (new_RulerBuilder 0 no_options page)) 2) = [''canvas-ruler'']"
  "childNodes (heap (snd (new_RulerBuilder 0 no_options page)) 2) = []"
  using new_RulerBuilder_canvas [where c = 0 and p = no_options and w = page]
  by (simp_all add: numeral_2_eq_2)

lemma page_builder_no_wrapper:
  "querySelector 0 ''lines-wrapper''
     (guide_made (fst (new_RulerBuilder 0 no_options page)) e (snd (new_RulerBuilder 0 no_options page)))
   = None"
  by (simp add: querySelector_def page_builder_facts page_builder_canvas find_desc_Cons)

lemma drawRuler_ctx:
  "ctx (heap (drawRuler this w) (canvas this)) =
     ctx (heap w (canvas this))
     @ [BeginPath, FillStyle (bgColor (optionsHeap w (options this))),
        FillRect 0 0 (width (ruler this)) (height (ruler this)), ClosePath,
        BeginPath,
        Font (fontSize (optionsHeap w (options this)) @ '' ''
              @ fontFamily (optionsHeap w (options this))),
        TextAlign ''left'', FillStyle (fontColor (optionsHeap w (options this))),
        StrokeStyle (strokeStyle (optionsHeap w (options this))),
        LineWidth (lineWidth (optionsHeap w (options this)))]
     @ concat (map (drawPoint (height (ruler this)) (offset (optionsHeap w (options this)))
                      (scale (optionsHeap w (options this))))
                 [0..\<lfloor>width (ruler this)\<rfloor>])
     @ [Stroke]"
  unfolding drawRuler_def Let_def by (simp add: drawPoints_ctx)

lemma setScale_ctx:
  "ctx (heap (snd (setScale this s w)) (canvas this)) =
     ctx (heap w (canvas this))
     @ [BeginPath, FillStyle (bgColor (optionsHeap w (options this))),
        FillRect 0 0 (width (ruler this)) (height (ruler this)), ClosePath,
        BeginPath,
        Font (fontSize (optionsHeap w (options this)) @ '' ''
              @ fontFamily (optionsHeap w (options this))),
        TextAlign ''left'', FillStyle (fontColor (optionsHeap w (options this))),
        StrokeStyle (strokeStyle (optionsHeap w (options this))),
        LineWidth (lineWidth (optionsHeap w (options this)))]
     @ concat (map (drawPoint (height (ruler this)) (offset (optionsHeap w (options this))) s)
                 [0..\<lfloor>width (ruler this)\<rfloor>])
     @ [Stroke]"
  unfolding setScale_def Let_def by (simp add: drawRuler_ctx)

lemma setSize_this:
  "fst (setSize this wi h s w) =
     this\<lparr>ruler := (ruler this)\<lparr>
       width := (if direction (optionsHeap w (options this)) = TB
                 then max (offsetWidth (heap w (el this))) wi
                 else max (offsetHeight (heap w (el this))) wi),
       height := h\<rparr>\<rparr>"
  unfolding setSize_def Let_def split_def by simp

lemma setSize_world:
  "snd (setSize this wi h s w) =
     drawRuler (fst (setSize this wi h s w))
       (snd (createCanvas (Some (canvas this))
          (width (ruler (fst (setSize this wi h s w)))) h (ratio (optionsHeap w (options this)))
          (w\<lparr>optionsHeap := (optionsHeap w)(options this :=
                (optionsHeap w (options this))\<lparr>rulerWidth := wi, rulerHeight := h, scale := s\<rparr>)\<rparr>)))"
  unfolding setSize_def Let_def split_def by simp

lemma drawRuler_canvas_size [simp]:
  "canvas_height (heap (drawRuler this w) r) = canvas_height (heap w r)"
  "canvas_width (heap (drawRuler this w) r) = canvas_width (heap w r)"
  unfolding drawRuler_def drawPoints_def Let_def by simp_all

lemma setSize_canvas:
  "canvas_height (heap (snd (setSize this wi h s w)) (canvas this)) =
     canvas_size 150 (js_mul (Finite h) (Finite (ratio (optionsHeap w (options this)))))"
  unfolding setSize_world by (simp add: createCanvas_Some del: js_mul.simps)

lemma setSize_ctx:
  "ctx (heap (snd (setSize this wi h s w)) (canvas this)) =
     [SetTransform (ratio (optionsHeap w (options this))) 0 0
        (ratio (optionsHeap w (options this))) 0 0,
      BeginPath, FillStyle (bgColor (optionsHeap w (options this))),
      FillRect 0 0 (width (ruler (fst (setSize this wi h s w)))) h, ClosePath,
      BeginPath,
      Font (fontSize (optionsHeap w (options this)) @ '' ''
            @ fontFamily (optionsHeap w (options this))),
      TextAlign ''left'', FillStyle (fontColor (optionsHeap w (options this))),
      StrokeStyle (strokeStyle (optionsHeap w (options this))),
      LineWidth (lineWidth (optionsHeap w (options this)))]
     @ concat (map (drawPoint h (offset (optionsHeap w (options this))) s)
                 [0..\<lfloor>width (ruler (fst (setSize this wi h s w)))\<rfloor>])
     @ [Stroke]"
proof -
  let ?T = "fst (setSize this wi h s w)"
  let ?W = "snd (createCanvas (Some (canvas this))
          (width (ruler (fst (setSize this wi h s w)))) h (ratio (optionsHeap w (options this)))
          (w\<lparr>optionsHeap := (optionsHeap w)(options this :=
                (optionsHeap w (options this))\<lparr>rulerWidth := wi, rulerHeight := h, scale := s\<rparr>)\<rparr>))"
  have c: "canvas ?T = canvas this"
    and o: "options ?T = options this"
    and g: "height (ruler ?T) = h"
    by (simp_all add: setSize_this)
  have e: "snd (setSize this wi h s w) = drawRuler ?T ?W" by (rule setSize_world)
  have x: "ctx (heap ?W (canvas this)) =
     [SetTransform (ratio (optionsHeap w (options this))) 0 0
        (ratio (optionsHeap w (options this))) 0 0]"
    by (simp add: createCanvas_Some del: js_mul.simps)
  have y: "optionsHeap ?W (options this) =
     (optionsHeap w (options this))\<lparr>rulerWidth := wi, rulerHeight := h, scale := s\<rparr>"
    by (simp add: createCanvas_Some del: js_mul.simps)
  from drawRuler_ctx [of ?T ?W] have "ctx (heap (drawRuler ?T ?W) (canvas this)) =
     [SetTransform (ratio (optionsHeap w (options this))) 0 0
        (ratio (optionsHeap w (options this))) 0 0,
      BeginPath, FillStyle (bgColor (optionsHeap w (options this))),
      FillRect 0 0 (width (ruler ?T)) h, ClosePath,
      BeginPath,
      Font (fontSize (optionsHeap w (options this)) @ '' ''
            @ fontFamily (optionsHeap w (options this))),
      TextAlign ''left'', FillStyle (fontColor (optionsHeap w (options this))),
      StrokeStyle (strokeStyle (optionsHeap w (options this))),
      LineWidth (lineWidth (optionsHeap w (options this)))]
     @ concat (map (drawPoint h (offset (optionsHeap w (options this))) s)
                 [0..\<lfloor>width (ruler ?T)\<rfloor>])
     @ [Stroke]"
    unfolding c o g x y by simp
  then show ?thesis by (simp only: e)
qed

lemma title_proj [simp]:
  "title (heap (remove_node c w) x) = title (heap w x)"
  "title (heap (addClass r k w) x) = title (heap w x)"
  by (simp_all add: remove_node_def removeChild_def addClass_def split: option.splits)

lemma title_appendChild [simp]:
  "title (heap (appendChild p c w) x) = title (heap w x)"
  by (simp add: appendChild_def)

lemma guide_made_title:
  "title (heap (guide_made this e w) (nextRef w)) = ''double click removes the guide''"
  unfolding guide_made_def Let_def split_def
  by (simp add: addClass_def new_node_def)

lemma constructGuide_title:
  "title (heap (snd (constructGuide this e w)) (nextRef w)) = ''double click removes the guide''"
  by (simp add: constructGuide_eq guide_made_title split: option.splits)

lemma constructRuler_offset:
  "r = el this \<Longrightarrow> r \<noteq> nextRef w \<Longrightarrow>
     offsetWidth (heap (snd (constructRuler this w)) r) = offsetWidth (heap w r)"
  "r = el this \<Longrightarrow> r \<noteq> nextRef w \<Longrightarrow>
     offsetHeight (heap (snd (constructRuler this w)) r) = offsetHeight (heap w r)"
  unfolding constructRuler_def Let_def split_def
  by (simp_all add: createCanvas_None appendChild_fresh dom_defs)

lemma new_RulerBuilder_offset:
  "c \<noteq> Suc (nextRef w) \<Longrightarrow>
     offsetWidth (heap (snd (new_RulerBuilder c p w)) c) = offsetWidth (heap w c)"
  "c \<noteq> Suc (nextRef w) \<Longrightarrow>
     offsetHeight (heap (snd (new_RulerBuilder c p w)) c) = offsetHeight (heap w c)"
  unfolding new_RulerBuilder_def Let_def
  by (simp_all add: constructRuler_offset)

lemma new_RulerBuilder_heap_el:
  "offsetWidth (heap (snd (new_RulerBuilder 0 no_options page)) 0) = 800"
  using new_RulerBuilder_offset(1) [of 0 page no_options] by simp

subsection \<open>The rounding at work: the scales 1.1 and 0.35\<close>

lemma lit_1_1_double: "fl (11 / 10) = Finite lit_1_1"
proof -
  have "fl (11 / 10) = Finite (of_int (rne ((11 / 10) * 2 powi (52 - 0))) * 2 powi (0 - 52))"
    by (rule fl_eval) simp_all
  also have "rne ((11 / 10) * 2 powi (52 - 0)) = 4953959590107546"
    by (simp add: rne_def Let_def)
  finally show ?thesis by (simp add: lit_1_1_def)
qed

lemma lit_0_35_double: "fl (35 / 100) = Finite lit_0_35"
proof -
  have "fl (35 / 100) = Finite (of_int (rne ((35 / 100) * 2 powi (52 - (- 2)))) * 2 powi (- 2 - 52))"
    by (rule fl_eval) simp_all
  also have "rne ((35 / 100) * 2 powi (52 - (- 2))) = 6305039478318694"
    by (simp add: rne_def Let_def)
  finally show ?thesis by (simp add: lit_0_35_def)
qed

lemma div_22_by_1_1: "js_div (Finite 22) (Finite lit_1_1) = Finite 20"
proof -
  have "fl (22 / lit_1_1) = Finite (of_int (rne ((22 / lit_1_1) * 2 powi (52 - 4))) * 2 powi (4 - 52))"
    by (rule fl_eval) (simp_all add: lit_1_1_def)
  also have "rne ((22 / lit_1_1) * 2 powi (52 - 4)) = 5629499534213120"
    by (simp add: rne_def Let_def lit_1_1_def)
  finally show ?thesis by (simp add: lit_1_1_def)
qed

lemma div_550_by_1_1:
  "js_div (Finite 550) (Finite lit_1_1) = Finite (8796093022207999 / 17592186044416)"
proof -
  have "fl (550 / lit_1_1) = Finite (of_int (rne ((550 / lit_1_1) * 2 powi (52 - 8))) * 2 powi (8 - 52))"
    by (rule fl_eval) (simp_all add: lit_1_1_def)
  also have "rne ((550 / lit_1_1) * 2 powi (52 - 8)) = 8796093022207999"
    by (simp add: rne_def Let_def lit_1_1_def)
  finally show ?thesis by (simp add: lit_1_1_def)
qed

lemma mul_90_by_0_35:
  "js_mul (Finite 90) (Finite lit_0_35) = Finite (8866461766385663 / 281474976710656)"
proof -
  have "fl (90 * lit_0_35) = Finite (of_int (rne ((90 * lit_0_35) * 2 powi (52 - 4))) * 2 powi (4 - 52))"
    by (rule fl_eval) (simp_all add: lit_0_35_def)
  also have "rne ((90 * lit_0_35) * 2 powi (52 - 4)) = 8866461766385663"
    by (simp add: rne_def Let_def lit_0_35_def)
  finally show ?thesis by (simp add: lit_0_35_def)
qed

lemma double_40_3: "fl (40 / 3) = Finite (7505999378950827 / 562949953421312)"
proof -
  have "fl (40 / 3) = Finite (of_int (rne ((40 / 3) * 2 powi (52 - 3))) * 2 powi (3 - 52))"
    by (rule fl_eval) simp_all
  also have "rne ((40 / 3) * 2 powi (52 - 3)) = 7505999378950827"
    by (simp add: rne_def Let_def)
  finally show ?thesis by simp
qed

lemma div_20_by_1_5: "js_div (Finite 20) (Finite (3 / 2)) = Finite (7505999378950827 / 562949953421312)"
  by (simp add: double_40_3)

lemma spread_scale_1_1 [simp]:
  "spread default_options scale_1_1 = default_options\<lparr>scale := lit_1_1\<rparr>"
  by (simp add: spread_def scale_1_1_def no_options_def or_else_def default_options_def)

text \<open>
  With the scale 1.1 and the other options at their defaults, the pointer at 81 is 22
  pixels behind the offset: the quotient of 22 by the double of 1.1 lies below 20, and
  rounded to a double it is 20, which is the coordinate. The pointer at 609 is 550 pixels
  behind the offset and has the coordinate 499; so has the label that \<open>drawPoint\<close> writes
  at the position 590. With the scale 0.35 the tooltip of a guide at 151 shows 31, the
  product of 90 and the double of 0.35 being a little less than 31.5.
\<close>

lemma getPos_at_scale_1_1:
  "coor (getPos (fst (new_RulerBuilder 0 scale_1_1 page)) \<lparr>clientX = 81, clientY = 0\<rparr>
          (snd (new_RulerBuilder 0 scale_1_1 page))) = Finite 20"
  "\<lfloor>(81 - 0 - 20 + 1 - 40) / lit_1_1\<rfloor> = 19"
  "coor (getPos (fst (new_RulerBuilder 0 scale_1_1 page)) \<lparr>clientX = 609, clientY = 0\<rparr>
          (snd (new_RulerBuilder 0 scale_1_1 page))) = Finite 499"
proof -
  show "coor (getPos (fst (new_RulerBuilder 0 scale_1_1 page)) \<lparr>clientX = 81, clientY = 0\<rparr>
          (snd (new_RulerBuilder 0 scale_1_1 page))) = Finite 20"
    by (simp add: getPos_def Let_def new_RulerBuilder_this new_RulerBuilder_proj div_22_by_1_1
        del: js_div.simps)
  show "\<lfloor>(81 - 0 - 20 + 1 - 40) / lit_1_1\<rfloor> = 19"
    by (simp add: lit_1_1_def)
  show "coor (getPos (fst (new_RulerBuilder 0 scale_1_1 page)) \<lparr>clientX = 609, clientY = 0\<rparr>
          (snd (new_RulerBuilder 0 scale_1_1 page))) = Finite 499"
    by (simp add: getPos_def Let_def new_RulerBuilder_this new_RulerBuilder_proj div_550_by_1_1
        del: js_div.simps)
qed

lemma drawPoint_at_scale_1_1:
  "drawPoint 20 40 lit_1_1 590 =
     [MoveTo (Finite (1181 / 2)) (Finite (41 / 2)), LineTo (Finite (1181 / 2)) (Finite 0),
      FillText (Finite 499) (Finite (1185 / 2)) (Finite (7505999378950827 / 562949953421312))]"
proof -
  have i: "(11 :: rat) \<in> \<int>" by simp
  have p: "(0 :: rat) < lit_1_1" by (simp add: lit_1_1_def)
  have h: "(0 :: rat) \<le> 20" by simp
  show ?thesis
    unfolding drawPoint_cases [OF p h]
    by (simp add: div_550_by_1_1 div_20_by_1_5 del: js_div.simps)
qed

lemma tooltip_at_scale_0_35:
  "Math_round (js_mul
     (js_sub (js_sub (js_sub (Finite 151) (Finite 20)) (Finite 1)) (Finite 40))
     (Finite lit_0_35)) = Finite 31"
  "\<lfloor>(151 - 20 - 1 - 40) * (35 / 100) + 1 / 2 :: rat\<rfloor> = 32"
proof -
  show "Math_round (js_mul
     (js_sub (js_sub (js_sub (Finite 151) (Finite 20)) (Finite 1)) (Finite 40))
     (Finite lit_0_35)) = Finite 31"
    by (simp add: mul_90_by_0_35 del: js_mul.simps)
  show "\<lfloor>(151 - 20 - 1 - 40) * (35 / 100) + 1 / 2 :: rat\<rfloor> = 32" by simp
qed

section \<open>The claims\<close>

subsection \<open>C1: the logical coordinate of a pointer position\<close>

text \<open>
  C1, the claim as stated, at its own example. A builder made with thickness
  (\<open>rulerHeight\<close>) 0 and otherwise the defaults, so \<open>scale = 1\<close> and \<open>offset = 40\<close>, on
  a container without a parent: for the pointer at 90, \<open>getPos\<close> returns the
  coordinate 51, where \<open>floor((90 - 0 - 40) / 1)\<close> is 50.
\<close>

theorem getPos_spec_counterexample:
  "coor (getPos (fst (new_RulerBuilder 0 thickness_0 page)) \<lparr>clientX = 90, clientY = 0\<rparr>
          (snd (new_RulerBuilder 0 thickness_0 page))) = Finite 51
   \<and> spec_toLogical 0 40 1 90 = 50
   \<and> rulerHeight (optionsHeap (snd (new_RulerBuilder 0 thickness_0 page))
         (options (fst (new_RulerBuilder 0 thickness_0 page)))) = 0
   \<and> offset (optionsHeap (snd (new_RulerBuilder 0 thickness_0 page))
         (options (fst (new_RulerBuilder 0 thickness_0 page)))) = 40
   \<and> scale (optionsHeap (snd (new_RulerBuilder 0 thickness_0 page))
         (options (fst (new_RulerBuilder 0 thickness_0 page)))) = 1"
  by (simp add: getPos_def Let_def new_RulerBuilder_this new_RulerBuilder_proj
        spec_toLogical_def)

text \<open>
  C1, amended. The coordinate \<open>getPos\<close> returns for a pointer position along the primary
  axis (\<open>clientX\<close> for direction \<open>TB\<close>, \<open>clientY\<close> otherwise) is
  \<open>floor((devicePos - parentOffset - thickness + indicatorLineWidth - offset) / scale)\<close>
  with the subtractions, the addition and the division carried out from left to right
  as operations on doubles, each rounding its result; \<open>parentOffset\<close> is the offset of
  the container's parent along that axis (zero without a parent), and
  \<open>indicatorLineWidth\<close> is 1 in every builder the constructor makes. When the position,
  the parent's offset, the thickness, the line width and the offset are integers up to
  \<open>2 ^ 50\<close> in size and the scale is a fraction \<open>p / q\<close> of integers with \<open>p\<close> and the
  product of \<open>q\<close> with the numerator below \<open>2 ^ 53\<close> in size, no rounding reaches the
  result: the coordinate is the floor of the exact quotient.
\<close>

theorem getPos_coor:
  assumes "opts = optionsHeap w (options this)"
    and "devicePos = (if direction opts = TB then clientX e else clientY e)"
    and "parentOff = (case parentNode (heap w (el this)) of None \<Rightarrow> 0
           | Some p \<Rightarrow> if direction opts = TB then offsetLeft (heap w p) else offsetTop (heap w p))"
  shows "coor (getPos this e w) =
           Math_floor (js_div
             (js_sub
               (js_add
                 (js_sub (js_sub (Finite devicePos) (Finite parentOff)) (Finite (rulerHeight opts)))
                 (Finite (indicatorLineWidth this)))
               (Finite (offset opts)))
             (Finite (scale opts)))
     \<and> (\<forall>x po t l off p q.
           devicePos = of_int x \<and> parentOff = of_int po \<and> rulerHeight opts = of_int t
           \<and> indicatorLineWidth this = of_int l \<and> offset opts = of_int off
           \<and> \<bar>x\<bar> \<le> 2 ^ 50 \<and> \<bar>po\<bar> \<le> 2 ^ 50 \<and> \<bar>t\<bar> \<le> 2 ^ 50 \<and> \<bar>l\<bar> \<le> 2 ^ 50 \<and> \<bar>off\<bar> \<le> 2 ^ 50
           \<and> scale opts = of_int p / of_int q \<and> p \<noteq> 0 \<and> q \<noteq> 0
           \<and> \<bar>p\<bar> < 2 ^ 53 \<and> \<bar>(x - po - t + l - off) * q\<bar> < 2 ^ 53
           \<longrightarrow> coor (getPos this e w) =
                 Finite (of_int \<lfloor>(devicePos - parentOff - rulerHeight opts + indicatorLineWidth this
                                    - offset opts) / scale opts\<rfloor>))
     \<and> indicatorLineWidth (fst (new_RulerBuilder c p0 w0)) = 1"
proof (intro conjI allI impI)
  show g: "coor (getPos this e w) =
           Math_floor (js_div
             (js_sub
               (js_add
                 (js_sub (js_sub (Finite devicePos) (Finite parentOff)) (Finite (rulerHeight opts)))
                 (Finite (indicatorLineWidth this)))
               (Finite (offset opts)))
             (Finite (scale opts)))"
    using assms
    by (simp add: getPos_def Let_def split: option.splits del: js_div.simps js_add.simps)
  show "indicatorLineWidth (fst (new_RulerBuilder c p0 w0)) = 1"
    by (simp add: new_RulerBuilder_this)
  fix x po t l off p q
  assume h: "devicePos = of_int x \<and> parentOff = of_int po \<and> rulerHeight opts = of_int t
           \<and> indicatorLineWidth this = of_int l \<and> offset opts = of_int off
           \<and> \<bar>x\<bar> \<le> 2 ^ 50 \<and> \<bar>po\<bar> \<le> 2 ^ 50 \<and> \<bar>t\<bar> \<le> 2 ^ 50 \<and> \<bar>l\<bar> \<le> 2 ^ 50 \<and> \<bar>off\<bar> \<le> 2 ^ 50
           \<and> scale opts = of_int p / of_int q \<and> p \<noteq> 0 \<and> q \<noteq> 0
           \<and> \<bar>p\<bar> < 2 ^ 53 \<and> \<bar>(x - po - t + l - off) * q\<bar> < 2 ^ 53"
  then have b: "\<bar>x\<bar> \<le> 1125899906842624" "\<bar>po\<bar> \<le> 1125899906842624"
    "\<bar>t\<bar> \<le> 1125899906842624" "\<bar>l\<bar> \<le> 1125899906842624" "\<bar>off\<bar> \<le> 1125899906842624"
    by simp_all
  have b1: "\<bar>x - po\<bar> \<le> 2 ^ 53" using b by simp
  have b2: "\<bar>x - po - t\<bar> \<le> 2 ^ 53" using b by simp
  have b3: "\<bar>x - po - t + l\<bar> \<le> 2 ^ 53" using b by simp
  have b4: "\<bar>x - po - t + l - off\<bar> \<le> 2 ^ 53" using b by simp
  have 1: "js_sub (Finite devicePos) (Finite parentOff) = Finite (of_int (x - po))"
    using h fl_of_int [OF b1] by simp
  have 2: "js_sub (Finite (of_int (x - po))) (Finite (rulerHeight opts)) = Finite (of_int (x - po - t))"
    using h fl_of_int [OF b2] by simp
  have 3: "js_add (Finite (of_int (x - po - t))) (Finite (indicatorLineWidth this))
             = Finite (of_int (x - po - t + l))"
    using h fl_of_int [OF b3] by simp
  have 4: "js_sub (Finite (of_int (x - po - t + l))) (Finite (offset opts))
             = Finite (of_int (x - po - t + l - off))"
    using h fl_of_int [OF b4] by simp
  have 5: "Math_floor (js_div (Finite (of_int (x - po - t + l - off))) (Finite (scale opts)))
             = Finite (of_int \<lfloor>of_int (x - po - t + l - off) / scale opts\<rfloor>)"
    by (rule floor_div_exact [of _ p q]) (use h in simp_all)
  have 6: "devicePos - parentOff - rulerHeight opts + indicatorLineWidth this - offset opts
             = of_int (x - po - t + l - off)"
    using h by simp
  show "coor (getPos this e w) =
          Finite (of_int \<lfloor>(devicePos - parentOff - rulerHeight opts + indicatorLineWidth this
                             - offset opts) / scale opts\<rfloor>)"
    unfolding g 1 2 3 4 5 6 ..
qed

text \<open>
  C1, amended, at the claim's example: thickness 0, offset 40, scale 1, pointer at 90,
  no parent. The coordinate is \<open>floor((90 - 0 - 0 + 1 - 40) / 1)\<close>, which is 51.
\<close>

theorem getPos_coor_witness:
  "(90 :: rat) = of_int 90 \<and> \<bar>90 :: int\<bar> \<le> 2 ^ 50
   \<and> scale (optionsHeap (snd (new_RulerBuilder 0 thickness_0 page))
        (options (fst (new_RulerBuilder 0 thickness_0 page)))) = of_int 1 / of_int 1
   \<and> \<bar>(90 - 0 - 0 + 1 - 40) * 1 :: int\<bar> < 2 ^ 53
   \<and> coor (getPos (fst (new_RulerBuilder 0 thickness_0 page)) \<lparr>clientX = 90, clientY = 0\<rparr>
          (snd (new_RulerBuilder 0 thickness_0 page)))
       = Finite (of_int \<lfloor>(90 - 0 - 0 + 1 - 40) / 1 :: rat\<rfloor>)
   \<and> \<lfloor>(90 - 0 - 0 + 1 - 40) / 1 :: rat\<rfloor> = 51"
proof -
  let ?t = "fst (new_RulerBuilder 0 thickness_0 page)"
  let ?w = "snd (new_RulerBuilder 0 thickness_0 page)"
  let ?e = "\<lparr>clientX = 90, clientY = 0\<rparr>"
  have o: "default_options\<lparr>rulerHeight := 0\<rparr> = optionsHeap ?w (options ?t)"
    by (simp add: new_RulerBuilder_this new_RulerBuilder_proj)
  have d: "(90 :: rat) = (if direction (default_options\<lparr>rulerHeight := 0\<rparr>) = TB
                          then clientX ?e else clientY ?e)"
    by simp
  have p: "(0 :: rat) = (case parentNode (heap ?w (el ?t)) of None \<Rightarrow> 0
           | Some p \<Rightarrow> if direction (default_options\<lparr>rulerHeight := 0\<rparr>) = TB
                       then offsetLeft (heap ?w p) else offsetTop (heap ?w p))"
    by (simp add: new_RulerBuilder_this new_RulerBuilder_proj)
  have i: "indicatorLineWidth ?t = 1" by (simp add: new_RulerBuilder_this)
  from getPos_coor [OF o d p]
  have "\<forall>x po t l off p q.
           (90 :: rat) = of_int x \<and> (0 :: rat) = of_int po
           \<and> rulerHeight (default_options\<lparr>rulerHeight := 0\<rparr>) = of_int t
           \<and> indicatorLineWidth ?t = of_int l
           \<and> offset (default_options\<lparr>rulerHeight := 0\<rparr>) = of_int off
           \<and> \<bar>x\<bar> \<le> 2 ^ 50 \<and> \<bar>po\<bar> \<le> 2 ^ 50 \<and> \<bar>t\<bar> \<le> 2 ^ 50 \<and> \<bar>l\<bar> \<le> 2 ^ 50 \<and> \<bar>off\<bar> \<le> 2 ^ 50
           \<and> scale (default_options\<lparr>rulerHeight := 0\<rparr>) = of_int p / of_int q \<and> p \<noteq> 0 \<and> q \<noteq> 0
           \<and> \<bar>p\<bar> < 2 ^ 53 \<and> \<bar>(x - po - t + l - off) * q\<bar> < 2 ^ 53
           \<longrightarrow> coor (getPos ?t ?e ?w) =
                 Finite (of_int \<lfloor>(90 - 0 - rulerHeight (default_options\<lparr>rulerHeight := 0\<rparr>)
                                    + indicatorLineWidth ?t
                                    - offset (default_options\<lparr>rulerHeight := 0\<rparr>))
                                   / scale (default_options\<lparr>rulerHeight := 0\<rparr>)\<rfloor>)"
    by blast
  from this [rule_format, of 90 0 0 1 40 1 1]
  have c: "coor (getPos ?t ?e ?w) = Finite (of_int \<lfloor>(90 - 0 - 0 + 1 - 40) / 1 :: rat\<rfloor>)"
    by (simp add: i)
  have s: "scale (optionsHeap ?w (options ?t)) = of_int 1 / of_int 1"
    by (simp add: new_RulerBuilder_this new_RulerBuilder_proj)
  show ?thesis using c s by simp
qed

subsection \<open>C2: from a coordinate back to a position and again to a coordinate\<close>




subsection \<open>C3: the ticks and the labels\<close>

text \<open>
  C3. With a positive scale and a thickness that is not negative, on a ruler less than
  \<open>2 ^ 53\<close> wide (from there on adding 1 to the counter of the loop would no longer
  change it), \<open>drawPoints\<close> sends the context, for the positions 0, 1, ... up to the
  width in this order, what \<open>drawPoint\<close> gives; and at a position with \<open>delta = pos - offset\<close>, \<open>drawPoint\<close> gives nothing when
  \<open>delta < 0\<close>; else for \<open>delta\<close> a multiple of 50 a tick down to 0 with the label
  \<open>floor(delta / scale)\<close> at \<open>pos + 2.5\<close>, baseline \<open>height / 1.5\<close>; else for a multiple of
  25 a tick down to \<open>height / 1.5\<close>; else for a multiple of 5 a tick down to
  \<open>height / 1.2\<close>; else nothing. The difference, the sums and the quotients are those
  of doubles, as the code computes them, and \<open>1.2\<close> is the double of that literal; a
  \<open>delta\<close> that is not finite gives nothing. With width 200, offset 0 and scale 1 there
  is a tick at \<open>p\<close> exactly for the multiples of 5 from 0 to 200, and the labels are
  exactly those at the multiples of 50, each with the value of its position.
\<close>

theorem drawPoints_tiers:
  assumes "opts = optionsHeap w (options this)"
    and "0 < scale opts"
    and "ht = height (ruler this)"
    and "0 \<le> ht"
    and "width (ruler this) < 2 ^ 53"
  shows "ctx (heap (drawPoints this w) (canvas this)) =
           ctx (heap w (canvas this))
           @ concat (map (drawPoint ht (offset opts) (scale opts)) [0..\<lfloor>width (ruler this)\<rfloor>])
     \<and> (\<forall>pos. drawPoint ht (offset opts) (scale opts) pos =
          (case js_sub (Finite (of_int pos)) (Finite (offset opts)) of
             Finite delta \<Rightarrow>
               if delta < 0 then []
               else if delta / 50 \<in> \<int> then
                 [MoveTo (js_add (Finite (of_int pos)) (Finite (1 / 2)))
                    (js_add (Finite ht) (Finite (1 / 2))),
                  LineTo (js_add (Finite (of_int pos)) (Finite (1 / 2))) (Finite 0),
                  FillText (Math_floor (js_div (Finite delta) (Finite (scale opts))))
                    (js_add (Finite (of_int pos)) (Finite (5 / 2)))
                    (js_div (Finite ht) (Finite (3 / 2)))]
               else if delta / 25 \<in> \<int> then
                 [MoveTo (js_add (Finite (of_int pos)) (Finite (1 / 2)))
                    (js_add (Finite ht) (Finite (1 / 2))),
                  LineTo (js_add (Finite (of_int pos)) (Finite (1 / 2)))
                    (js_div (Finite ht) (Finite (3 / 2)))]
               else if delta / 5 \<in> \<int> then
                 [MoveTo (js_add (Finite (of_int pos)) (Finite (1 / 2)))
                    (js_add (Finite ht) (Finite (1 / 2))),
                  LineTo (js_add (Finite (of_int pos)) (Finite (1 / 2)))
                    (js_div (Finite ht) (Finite lit_1_2))]
               else []
           | PosInfinity \<Rightarrow> []
           | NegInfinity \<Rightarrow> []
           | NaN \<Rightarrow> []))
     \<and> fl (6 / 5) = Finite lit_1_2
     \<and> (\<forall>p. (\<exists>y. LineTo (Finite (of_int p + 1 / 2)) y \<in> set (drawPoints_loop 200 ht 0 1 0 []))
             \<longleftrightarrow> 0 \<le> p \<and> p \<le> 200 \<and> 5 dvd p)
     \<and> (\<forall>l x y. FillText l x y \<in> set (drawPoints_loop 200 ht 0 1 0 [])
             \<longleftrightarrow> (\<exists>p. 0 \<le> p \<and> p \<le> 200 \<and> 50 dvd p \<and> l = Finite (of_int p)
                       \<and> x = Finite (of_int p + 5 / 2)
                       \<and> y = js_div (Finite ht) (Finite (3 / 2))))"
proof (intro conjI allI)
  show "ctx (heap (drawPoints this w) (canvas this)) =
           ctx (heap w (canvas this))
           @ concat (map (drawPoint ht (offset opts) (scale opts)) [0..\<lfloor>width (ruler this)\<rfloor>])"
    by (simp add: drawPoints_ctx assms(1,3))
next
  fix pos
  show "drawPoint ht (offset opts) (scale opts) pos =
          (case js_sub (Finite (of_int pos)) (Finite (offset opts)) of
             Finite delta \<Rightarrow>
               if delta < 0 then []
               else if delta / 50 \<in> \<int> then
                 [MoveTo (js_add (Finite (of_int pos)) (Finite (1 / 2)))
                    (js_add (Finite ht) (Finite (1 / 2))),
                  LineTo (js_add (Finite (of_int pos)) (Finite (1 / 2))) (Finite 0),
                  FillText (Math_floor (js_div (Finite delta) (Finite (scale opts))))
                    (js_add (Finite (of_int pos)) (Finite (5 / 2)))
                    (js_div (Finite ht) (Finite (3 / 2)))]
               else if delta / 25 \<in> \<int> then
                 [MoveTo (js_add (Finite (of_int pos)) (Finite (1 / 2)))
                    (js_add (Finite ht) (Finite (1 / 2))),
                  LineTo (js_add (Finite (of_int pos)) (Finite (1 / 2)))
                    (js_div (Finite ht) (Finite (3 / 2)))]
               else if delta / 5 \<in> \<int> then
                 [MoveTo (js_add (Finite (of_int pos)) (Finite (1 / 2)))
                    (js_add (Finite ht) (Finite (1 / 2))),
                  LineTo (js_add (Finite (of_int pos)) (Finite (1 / 2)))
                    (js_div (Finite ht) (Finite lit_1_2))]
               else []
           | PosInfinity \<Rightarrow> []
           | NegInfinity \<Rightarrow> []
           | NaN \<Rightarrow> [])"
    by (rule drawPoint_cases [OF assms(2) assms(4)])
next
  show "fl (6 / 5) = Finite lit_1_2" by (rule lit_1_2_double)
next
  fix p show "(\<exists>y. LineTo (Finite (of_int p + 1 / 2)) y \<in> set (drawPoints_loop 200 ht 0 1 0 []))
             \<longleftrightarrow> 0 \<le> p \<and> p \<le> 200 \<and> 5 dvd p"
    by (rule ticks_200 [OF assms(4)])
next
  fix l x y show "FillText l x y \<in> set (drawPoints_loop 200 ht 0 1 0 [])
             \<longleftrightarrow> (\<exists>p. 0 \<le> p \<and> p \<le> 200 \<and> 50 dvd p \<and> l = Finite (of_int p)
                       \<and> x = Finite (of_int p + 5 / 2)
                       \<and> y = js_div (Finite ht) (Finite (3 / 2)))"
    by (rule labels_200 [OF assms(4)])
qed

text \<open>
  C3 at the default options (scale 1, offset 40, thickness 20): position 90 has
  \<open>delta = 50\<close> and gets the long tick with the label 50, position 65 has \<open>delta = 25\<close>
  and gets the medium tick, position 39 has a negative \<open>delta\<close> and gets nothing; and
  on the ruler of width 200 with offset 0 there is a tick at 75 and the label 150 at 150.
  The baseline and the end of the medium tick are at the double nearest to \<open>20 / 1.5\<close>,
  which prints as 13.333333333333334.
\<close>

theorem drawPoints_tiers_witness:
  "0 < scale (optionsHeap (snd (new_RulerBuilder 0 no_options page))
            (options (fst (new_RulerBuilder 0 no_options page))))
   \<and> 0 \<le> height (ruler (fst (new_RulerBuilder 0 no_options page)))
   \<and> width (ruler (fst (new_RulerBuilder 0 no_options page))) < 2 ^ 53
   \<and> drawPoint 20 40 1 90 =
        [MoveTo (Finite (181 / 2)) (Finite (41 / 2)), LineTo (Finite (181 / 2)) (Finite 0),
         FillText (Finite 50) (Finite (185 / 2)) (Finite (7505999378950827 / 562949953421312))]
   \<and> drawPoint 20 40 1 65 =
        [MoveTo (Finite (131 / 2)) (Finite (41 / 2)), LineTo (Finite (131 / 2)) (Finite (7505999378950827 / 562949953421312))]
   \<and> drawPoint 20 40 1 39 = []
   \<and> (\<exists>y. LineTo (Finite (75 + 1 / 2)) y \<in> set (drawPoints_loop 200 20 0 1 0 []))
   \<and> FillText (Finite 150) (Finite (150 + 5 / 2)) (Finite (7505999378950827 / 562949953421312))
        \<in> set (drawPoints_loop 200 20 0 1 0 [])"
proof -
  let ?t = "fst (new_RulerBuilder 0 no_options page)" and ?w = "snd (new_RulerBuilder 0 no_options page)"
  have o: "default_options = optionsHeap ?w (options ?t)"
    by (simp add: new_RulerBuilder_this new_RulerBuilder_proj)
  have s: "0 < scale default_options" by simp
  have h: "20 = height (ruler ?t)" by (simp add: new_RulerBuilder_this)
  have h0: "(0 :: rat) \<le> 20" by simp
  have wb: "width (ruler ?t) < 2 ^ 53" by (simp add: new_RulerBuilder_this)
  note T = drawPoints_tiers [OF o s h h0 wb]
  have i: "(1 / 2 :: rat) \<notin> \<int>"
    using of_int_div_Ints_iff [of 2 1] by simp
  note P = T [THEN conjunct2, THEN conjunct1, rule_format]
  from P [of 90] have 1: "drawPoint 20 40 1 90 =
        [MoveTo (Finite (181 / 2)) (Finite (41 / 2)), LineTo (Finite (181 / 2)) (Finite 0),
         FillText (Finite 50) (Finite (185 / 2)) (Finite (7505999378950827 / 562949953421312))]"
    by (simp add: i double_40_3)
  from P [of 65] have 2: "drawPoint 20 40 1 65 =
        [MoveTo (Finite (131 / 2)) (Finite (41 / 2)), LineTo (Finite (131 / 2)) (Finite (7505999378950827 / 562949953421312))]"
    by (simp add: i double_40_3)
  have 3: "drawPoint 20 40 1 39 = []"
    by (simp add: drawPoint_def Let_def)
  from T have "(\<exists>y. LineTo (Finite (of_int 75 + 1 / 2)) y \<in> set (drawPoints_loop 200 20 0 1 0 []))
             \<longleftrightarrow> (0 :: int) \<le> 75 \<and> (75 :: int) \<le> 200 \<and> (5 :: int) dvd 75" by blast
  then have 4: "\<exists>y. LineTo (Finite (75 + 1 / 2)) y \<in> set (drawPoints_loop 200 20 0 1 0 [])" by simp
  from T have "FillText (Finite (of_int 150)) (Finite (of_int 150 + 5 / 2)) (js_div (Finite 20) (Finite (3 / 2)))
                 \<in> set (drawPoints_loop 200 20 0 1 0 [])
             \<longleftrightarrow> (\<exists>p::int. 0 \<le> p \<and> p \<le> 200 \<and> 50 dvd p \<and> (Finite (of_int 150) :: jsnumber) = Finite (of_int p)
                       \<and> (Finite (of_int 150 + 5 / 2) :: jsnumber) = Finite (of_int p + 5 / 2)
                       \<and> js_div (Finite 20) (Finite (3 / 2)) = js_div (Finite 20) (Finite (3 / 2)))"
    by blast
  moreover have "\<exists>p::int. 0 \<le> p \<and> p \<le> 200 \<and> 50 dvd p \<and> (Finite (of_int 150) :: jsnumber) = Finite (of_int p)
                       \<and> (Finite (of_int 150 + 5 / 2) :: jsnumber) = Finite (of_int p + 5 / 2)
                       \<and> js_div (Finite 20) (Finite (3 / 2)) = js_div (Finite 20) (Finite (3 / 2))"
    by (rule exI [of _ 150]) simp
  ultimately have 5: "FillText (Finite 150) (Finite (150 + 5 / 2))
          (Finite (7505999378950827 / 562949953421312))
        \<in> set (drawPoints_loop 200 20 0 1 0 [])"
    by (simp add: double_40_3)
  from o s h wb 1 2 3 4 5 show ?thesis by (simp del: One_nat_def)
qed

subsection \<open>C4: a dragged guide stays inside the drag container\<close>

text \<open>
  C4. Let \<open>startMoving\<close> have started a drag, in a drag container that is at least as wide
  and as high as the guide node. After every \<open>mousemove\<close> of any sequence of them,
  wherever the pointer is, the guide's \<open>left\<close> lies between 0 and the container's width
  less the guide's width, and its \<open>top\<close> between 0 and the container's height less the
  guide's height. (When the container is smaller than the guide there is no such
  position at all.)
\<close>

theorem drag_stays_in_container:
  assumes "startMoving this e w = Inr w1"
    and "dragContainer this = Some dc"
    and "offsetWidth (heap w (guideLine this)) \<le> offsetWidth (heap w dc)"
    and "offsetHeight (heap w (guideLine this)) \<le> offsetHeight (heap w dc)"
    and "evs \<noteq> []"
    and "w2 = fold document_mousemove evs w1"
  shows "\<exists>aX aY. style_left (heap w2 (guideLine this)) = Px aX
            \<and> style_top (heap w2 (guideLine this)) = Px aY
            \<and> 0 \<le> aX \<and> aX \<le> offsetWidth (heap w dc) - offsetWidth (heap w (guideLine this))
            \<and> 0 \<le> aY \<and> aY \<le> offsetHeight (heap w dc) - offsetHeight (heap w (guideLine this))"
proof -
  from startMoving_slot [OF assms(1)] assms(2)
  obtain c where c: "onmousemove w1 = Some c" "self c = this"
    "cWi c = offsetWidth (heap w dc)" "eWi c = offsetWidth (heap w (guideLine this))"
    "cHe c = offsetHeight (heap w dc)" "eHe c = offsetHeight (heap w (guideLine this))"
    by auto
  from assms(5) obtain evs' ev where evs: "evs = evs' @ [ev]"
    by (metis rev_exhaust)
  define w3 where "w3 = fold document_mousemove evs' w1"
  have slot: "onmousemove w3 = Some c" by (simp add: w3_def c(1))
  have w2: "w2 = run_move c ev w3"
    by (simp add: assms(6) evs w3_def [symmetric] document_mousemove_def slot)
  have l: "style_left (heap w2 (guideLine this)) =
      Px (min (max (clientX ev - diffX c) 0) (cWi c - eWi c))"
    using run_move_proj(3) [of c ev w3] by (simp add: w2 c(2))
  have t: "style_top (heap w2 (guideLine this)) =
      Px (min (max (clientY ev - diffY c) 0) (cHe c - eHe c))"
    using run_move_proj(4) [of c ev w3] by (simp add: w2 c(2))
  have "0 \<le> min (max (clientX ev - diffX c) 0) (cWi c - eWi c)"
    using assms(3) c(3,4) by simp
  moreover have "0 \<le> min (max (clientY ev - diffY c) 0) (cHe c - eHe c)"
    using assms(4) c(5,6) by simp
  moreover have "min (max (clientX ev - diffX c) 0) (cWi c - eWi c) \<le> cWi c - eWi c"
    "min (max (clientY ev - diffY c) 0) (cHe c - eHe c) \<le> cHe c - eHe c"
    by simp_all
  ultimately show ?thesis using l t c(3-6) by simp
qed


text \<open>
  C4 on the page for a guide line: the drag starts at (0, 0); the pointer goes to
  (140, 0) and then far outside, to (5000, -30); the guide ends at \<open>left = 799\<close>, the
  container's 800 less the guide's 1.
\<close>

theorem drag_stays_in_container_witness:
  "startMoving guide_3 \<lparr>clientX = 0, clientY = 0\<rparr> guide_page = Inr moving_page
   \<and> dragContainer guide_3 = Some 1
   \<and> offsetWidth (heap guide_page (guideLine guide_3)) \<le> offsetWidth (heap guide_page 1)
   \<and> offsetHeight (heap guide_page (guideLine guide_3)) \<le> offsetHeight (heap guide_page 1)
   \<and> (\<exists>aX aY.
         style_left (heap (fold document_mousemove
             [\<lparr>clientX = 140, clientY = 0\<rparr>, \<lparr>clientX = 5000, clientY = - 30\<rparr>] moving_page)
             (guideLine guide_3)) = Px aX
       \<and> style_top (heap (fold document_mousemove
             [\<lparr>clientX = 140, clientY = 0\<rparr>, \<lparr>clientX = 5000, clientY = - 30\<rparr>] moving_page)
             (guideLine guide_3)) = Px aY
       \<and> 0 \<le> aX
       \<and> aX \<le> offsetWidth (heap guide_page 1) - offsetWidth (heap guide_page (guideLine guide_3))
       \<and> 0 \<le> aY
       \<and> aY \<le> offsetHeight (heap guide_page 1) - offsetHeight (heap guide_page (guideLine guide_3)))
   \<and> style_left (heap (fold document_mousemove
             [\<lparr>clientX = 140, clientY = 0\<rparr>, \<lparr>clientX = 5000, clientY = - 30\<rparr>] moving_page)
             (guideLine guide_3)) = Px 799"
proof -
  have d: "dragContainer guide_3 = Some 1" by (simp add: guide_3_def)
  have g: "guideLine guide_3 = 3" by (simp add: guide_3_def)
  have wd: "offsetWidth (heap guide_page (guideLine guide_3)) \<le> offsetWidth (heap guide_page 1)"
    by (simp add: g)
  have ht: "offsetHeight (heap guide_page (guideLine guide_3)) \<le> offsetHeight (heap guide_page 1)"
    by (simp add: g)
  have ne: "[\<lparr>clientX = 140, clientY = 0\<rparr>, \<lparr>clientX = 5000, clientY = - 30\<rparr>] \<noteq> []" by simp
  note T = drag_stays_in_container [OF startMoving_guide_3 d wd ht ne refl]
  have l: "style_left (heap (fold document_mousemove
             [\<lparr>clientX = 140, clientY = 0\<rparr>, \<lparr>clientX = 5000, clientY = - 30\<rparr>] moving_page)
             (guideLine guide_3)) = Px 799"
    using run_move_proj(3) [of "\<lparr>self = guide_3, diffX = 0, diffY = 0, cWi = 800, eWi = 1, cHe = 600, eHe = 600\<rparr>"]
    by (simp add: document_mousemove_def moving_page_slot)
  from startMoving_guide_3 d wd ht T l show ?thesis by blast
qed

subsection \<open>C5: who owns the guides made by a pointer-down on the strip\<close>

text \<open>
  C5. On a builder with the default options, a \<open>mousedown\<close> on the strip at (140, 10)
  runs \<open>constructGuide\<close>. It creates the guide node 5, gives it the title that says a
  double click removes the guide and the class \<open>ruler-line\<close>, and appends it to the new
  wrapper 6. But it makes no \<open>GuideLine\<close> for the node, the two lines that would do so
  being commented out: afterwards the \<open>guides\<close> of the builder are still empty, the node
  has no listener at all, none for the double click its title speaks of, and no drag has
  been started. A following \<open>clearGuides\<close> finds nothing to destroy and leaves the page
  as it is: the node 5 is still the child of the wrapper 6.
\<close>

theorem constructGuide_makes_no_GuideLine:
  "guides (fst (constructGuide (fst (new_RulerBuilder 0 no_options page))
       \<lparr>clientX = 140, clientY = 10\<rparr> (snd (new_RulerBuilder 0 no_options page)))) = []
   \<and> classList (heap (snd (constructGuide (fst (new_RulerBuilder 0 no_options page))
       \<lparr>clientX = 140, clientY = 10\<rparr> (snd (new_RulerBuilder 0 no_options page)))) 5)
       = [''ruler-line'']
   \<and> title (heap (snd (constructGuide (fst (new_RulerBuilder 0 no_options page))
       \<lparr>clientX = 140, clientY = 10\<rparr> (snd (new_RulerBuilder 0 no_options page)))) 5)
       = ''double click removes the guide''
   \<and> listeners (heap (snd (constructGuide (fst (new_RulerBuilder 0 no_options page))
       \<lparr>clientX = 140, clientY = 10\<rparr> (snd (new_RulerBuilder 0 no_options page)))) 5)
       = []
   \<and> onmousemove (snd (constructGuide (fst (new_RulerBuilder 0 no_options page))
       \<lparr>clientX = 140, clientY = 10\<rparr> (snd (new_RulerBuilder 0 no_options page)))) = None
   \<and> parentNode (heap (snd (constructGuide (fst (new_RulerBuilder 0 no_options page))
       \<lparr>clientX = 140, clientY = 10\<rparr> (snd (new_RulerBuilder 0 no_options page)))) 5)
       = Some 6
   \<and> classList (heap (snd (constructGuide (fst (new_RulerBuilder 0 no_options page))
       \<lparr>clientX = 140, clientY = 10\<rparr> (snd (new_RulerBuilder 0 no_options page)))) 6)
       = [''lines-wrapper'']
   \<and> snd (clearGuides
        (fst (constructGuide (fst (new_RulerBuilder 0 no_options page))
           \<lparr>clientX = 140, clientY = 10\<rparr> (snd (new_RulerBuilder 0 no_options page))))
        (snd (constructGuide (fst (new_RulerBuilder 0 no_options page))
           \<lparr>clientX = 140, clientY = 10\<rparr> (snd (new_RulerBuilder 0 no_options page)))))
       = snd (constructGuide (fst (new_RulerBuilder 0 no_options page))
           \<lparr>clientX = 140, clientY = 10\<rparr> (snd (new_RulerBuilder 0 no_options page)))
   \<and> childNodes (heap (snd (clearGuides
        (fst (constructGuide (fst (new_RulerBuilder 0 no_options page))
           \<lparr>clientX = 140, clientY = 10\<rparr> (snd (new_RulerBuilder 0 no_options page))))
        (snd (constructGuide (fst (new_RulerBuilder 0 no_options page))
           \<lparr>clientX = 140, clientY = 10\<rparr> (snd (new_RulerBuilder 0 no_options page)))))) 6)
       = [5]"
proof -
  let ?t = "fst (new_RulerBuilder 0 no_options page)"
  let ?w = "snd (new_RulerBuilder 0 no_options page)"
  let ?e = "\<lparr>clientX = 140, clientY = 10\<rparr>"
  have q: "querySelector (el ?t) ''lines-wrapper'' (guide_made ?t ?e ?w) = None"
    by (simp add: page_builder_facts page_builder_no_wrapper)
  have n1: "el ?t \<noteq> nextRef ?w" and n2: "el ?t \<noteq> Suc (nextRef ?w)"
    by (simp_all add: page_builder_facts)
  note N = constructGuide_new_wrapper [OF q n1 n2]
  have t: "fst (constructGuide ?t ?e ?w) = ?t" by (rule constructGuide_this)
  have g: "guides (fst (constructGuide ?t ?e ?w)) = []"
    by (simp add: t page_builder_facts)
  have c: "clearGuides (fst (constructGuide ?t ?e ?w)) (snd (constructGuide ?t ?e ?w))
            = (fst (constructGuide ?t ?e ?w), snd (constructGuide ?t ?e ?w))"
    by (rule clearGuides_empty [OF g])
  have 1: "classList (heap (snd (constructGuide ?t ?e ?w)) 5) = [''ruler-line'']"
    using N(3) by (simp add: page_builder_facts)
  have 2: "parentNode (heap (snd (constructGuide ?t ?e ?w)) 5) = Some 6"
    using N(1) by (simp add: page_builder_facts)
  have 3: "childNodes (heap (snd (constructGuide ?t ?e ?w)) 6) = [5]"
    using N(2) by (simp add: page_builder_facts)
  have 4: "title (heap (snd (constructGuide ?t ?e ?w)) 5) = ''double click removes the guide''"
    using constructGuide_title [of ?t ?e ?w] by (simp add: page_builder_facts)
  have 5: "listeners (heap (snd (constructGuide ?t ?e ?w)) 5) = []"
    using constructGuide_listeners [of ?t ?e ?w] by (simp add: page_builder_facts)
  have 6: "onmousemove (snd (constructGuide ?t ?e ?w)) = None"
    by (simp add: constructGuide_slot new_RulerBuilder_proj)
  have 7: "classList (heap (snd (constructGuide ?t ?e ?w)) 6) = [''lines-wrapper'']"
    using N(4) by (simp add: page_builder_facts)
  show ?thesis using g 1 2 3 4 5 6 7 by (simp add: c)
qed

subsection \<open>C6: the tooltip of a dragged guide\<close>


subsection \<open>C7: what \<open>setScale\<close> and \<open>setSize\<close> do with a scale or a thickness that is not valid\<close>

text \<open>
  C7, the claim as stated, at two inputs. A builder with the default options has scale 1
  and thickness 20. After \<open>setScale(-1)\<close> its scale is -1; after \<open>setSize(1000, -5, 0)\<close>
  its thickness is -5 and its scale 0. Neither call is rejected and neither keeps the
  former configuration.
\<close>

theorem setScale_rejects_counterexample:
  "scale (optionsHeap (snd (new_RulerBuilder 0 no_options page))
      (options (fst (new_RulerBuilder 0 no_options page)))) = 1
   \<and> scale (optionsHeap (snd (setScale (fst (new_RulerBuilder 0 no_options page)) (- 1)
         (snd (new_RulerBuilder 0 no_options page))))
      (options (fst (new_RulerBuilder 0 no_options page)))) = - 1
   \<and> rulerHeight (optionsHeap (snd (new_RulerBuilder 0 no_options page))
      (options (fst (new_RulerBuilder 0 no_options page)))) = 20
   \<and> rulerHeight (optionsHeap (snd (setSize (fst (new_RulerBuilder 0 no_options page)) 1000 (- 5) 0
         (snd (new_RulerBuilder 0 no_options page))))
      (options (fst (new_RulerBuilder 0 no_options page)))) = - 5
   \<and> scale (optionsHeap (snd (setSize (fst (new_RulerBuilder 0 no_options page)) 1000 (- 5) 0
         (snd (new_RulerBuilder 0 no_options page))))
      (options (fst (new_RulerBuilder 0 no_options page)))) = 0"
  by (simp add: setScale_proj setSize_proj new_RulerBuilder_this new_RulerBuilder_proj)

text \<open>
  C7, amended. \<open>setScale\<close> and \<open>setSize\<close> do not validate their arguments: whatever the
  scale and the thickness are, zero and negative values too, the values are stored and
  the ruler is drawn with them (a ruler less than \<open>2 ^ 53\<close> wide, so that the loop over
  its positions comes to an end). \<open>setScale(s)\<close> stores \<open>s\<close> as the scale, leaves the
  builder as it is, and redraws: the context of the canvas receives, after what it had
  received before, the background, the settings of text and stroke, what \<open>drawPoint\<close>
  gives with the scale \<open>s\<close> for the positions from 0 to the width, and the stroke.
  \<open>setSize(w, h, s)\<close> stores the width \<open>w\<close>, the thickness \<open>h\<close> and the scale \<open>s\<close>, sets the
  width of the ruler to the larger of \<open>w\<close> and the container's extent and its height to
  \<open>h\<close>, sizes the canvas anew, which empties its context and sets the transform, and
  redraws in the same way with \<open>h\<close> and \<open>s\<close>.
\<close>

theorem setScale_setSize_store_and_redraw:
  assumes "width (ruler this) < 2 ^ 53"
    and "width (ruler (fst (setSize this wi h s w))) < 2 ^ 53"
  shows "fst (setScale this s w) = this
   \<and> optionsHeap (snd (setScale this s w)) =
        (optionsHeap w)(options this := (optionsHeap w (options this))\<lparr>scale := s\<rparr>)
   \<and> ctx (heap (snd (setScale this s w)) (canvas this)) =
        ctx (heap w (canvas this))
        @ [BeginPath, FillStyle (bgColor (optionsHeap w (options this))),
           FillRect 0 0 (width (ruler this)) (height (ruler this)), ClosePath,
           BeginPath,
           Font (fontSize (optionsHeap w (options this)) @ '' ''
                 @ fontFamily (optionsHeap w (options this))),
           TextAlign ''left'', FillStyle (fontColor (optionsHeap w (options this))),
           StrokeStyle (strokeStyle (optionsHeap w (options this))),
           LineWidth (lineWidth (optionsHeap w (options this)))]
        @ concat (map (drawPoint (height (ruler this)) (offset (optionsHeap w (options this))) s)
                    [0..\<lfloor>width (ruler this)\<rfloor>])
        @ [Stroke]
   \<and> optionsHeap (snd (setSize this wi h s w)) =
        (optionsHeap w)(options this :=
           (optionsHeap w (options this))\<lparr>rulerWidth := wi, rulerHeight := h, scale := s\<rparr>)
   \<and> fst (setSize this wi h s w) =
        this\<lparr>ruler := (ruler this)\<lparr>
          width := (if direction (optionsHeap w (options this)) = TB
                    then max (offsetWidth (heap w (el this))) wi
                    else max (offsetHeight (heap w (el this))) wi),
          height := h\<rparr>\<rparr>
   \<and> canvas_height (heap (snd (setSize this wi h s w)) (canvas this)) =
        canvas_size 150 (js_mul (Finite h) (Finite (ratio (optionsHeap w (options this)))))
   \<and> ctx (heap (snd (setSize this wi h s w)) (canvas this)) =
        [SetTransform (ratio (optionsHeap w (options this))) 0 0
           (ratio (optionsHeap w (options this))) 0 0,
         BeginPath, FillStyle (bgColor (optionsHeap w (options this))),
         FillRect 0 0 (width (ruler (fst (setSize this wi h s w)))) h, ClosePath,
         BeginPath,
         Font (fontSize (optionsHeap w (options this)) @ '' ''
               @ fontFamily (optionsHeap w (options this))),
         TextAlign ''left'', FillStyle (fontColor (optionsHeap w (options this))),
         StrokeStyle (strokeStyle (optionsHeap w (options this))),
         LineWidth (lineWidth (optionsHeap w (options this)))]
        @ concat (map (drawPoint h (offset (optionsHeap w (options this))) s)
                    [0..\<lfloor>width (ruler (fst (setSize this wi h s w)))\<rfloor>])
        @ [Stroke]"
proof (intro conjI)
  show "fst (setScale this s w) = this" by (rule setScale_proj)
  show "optionsHeap (snd (setScale this s w)) =
        (optionsHeap w)(options this := (optionsHeap w (options this))\<lparr>scale := s\<rparr>)"
    by (rule setScale_proj)
  show "ctx (heap (snd (setScale this s w)) (canvas this)) =
        ctx (heap w (canvas this))
        @ [BeginPath, FillStyle (bgColor (optionsHeap w (options this))),
           FillRect 0 0 (width (ruler this)) (height (ruler this)), ClosePath,
           BeginPath,
           Font (fontSize (optionsHeap w (options this)) @ '' ''
                 @ fontFamily (optionsHeap w (options this))),
           TextAlign ''left'', FillStyle (fontColor (optionsHeap w (options this))),
           StrokeStyle (strokeStyle (optionsHeap w (options this))),
           LineWidth (lineWidth (optionsHeap w (options this)))]
        @ concat (map (drawPoint (height (ruler this)) (offset (optionsHeap w (options this))) s)
                    [0..\<lfloor>width (ruler this)\<rfloor>])
        @ [Stroke]"
    by (rule setScale_ctx)
  show "optionsHeap (snd (setSize this wi h s w)) =
        (optionsHeap w)(options this :=
           (optionsHeap w (options this))\<lparr>rulerWidth := wi, rulerHeight := h, scale := s\<rparr>)"
    by (rule setSize_proj)
  show "fst (setSize this wi h s w) =
        this\<lparr>ruler := (ruler this)\<lparr>
          width := (if direction (optionsHeap w (options this)) = TB
                    then max (offsetWidth (heap w (el this))) wi
                    else max (offsetHeight (heap w (el this))) wi),
          height := h\<rparr>\<rparr>"
    by (rule setSize_this)
  show "canvas_height (heap (snd (setSize this wi h s w)) (canvas this)) =
        canvas_size 150 (js_mul (Finite h) (Finite (ratio (optionsHeap w (options this)))))"
    by (rule setSize_canvas)
  show "ctx (heap (snd (setSize this wi h s w)) (canvas this)) =
        [SetTransform (ratio (optionsHeap w (options this))) 0 0
           (ratio (optionsHeap w (options this))) 0 0,
         BeginPath, FillStyle (bgColor (optionsHeap w (options this))),
         FillRect 0 0 (width (ruler (fst (setSize this wi h s w)))) h, ClosePath,
         BeginPath,
         Font (fontSize (optionsHeap w (options this)) @ '' ''
               @ fontFamily (optionsHeap w (options this))),
         TextAlign ''left'', FillStyle (fontColor (optionsHeap w (options this))),
         StrokeStyle (strokeStyle (optionsHeap w (options this))),
         LineWidth (lineWidth (optionsHeap w (options this)))]
        @ concat (map (drawPoint h (offset (optionsHeap w (options this))) s)
                    [0..\<lfloor>width (ruler (fst (setSize this wi h s w)))\<rfloor>])
        @ [Stroke]"
    by (rule setSize_ctx)
qed

text \<open>
  C7, amended, on a builder with the default options, whose ruler is 1000 wide and
  stays so: \<open>setScale(-1)\<close> stores the scale -1 and draws the ruler with it;
  \<open>setSize(1000, -5, 0)\<close> stores the thickness -5 and the scale 0, and the canvas, asked
  for the height -10, takes the default height 150.
\<close>

theorem setScale_setSize_store_and_redraw_witness:
  "width (ruler (fst (new_RulerBuilder 0 no_options page))) < 2 ^ 53
   \<and> width (ruler (fst (setSize (fst (new_RulerBuilder 0 no_options page)) 1000 (- 5) 0
         (snd (new_RulerBuilder 0 no_options page))))) < 2 ^ 53
   \<and> scale (optionsHeap (snd (setScale (fst (new_RulerBuilder 0 no_options page)) (- 1)
         (snd (new_RulerBuilder 0 no_options page))))
      (options (fst (new_RulerBuilder 0 no_options page)))) = - 1
   \<and> ctx (heap (snd (setScale (fst (new_RulerBuilder 0 no_options page)) (- 1)
         (snd (new_RulerBuilder 0 no_options page))))
      (canvas (fst (new_RulerBuilder 0 no_options page)))) =
        ctx (heap (snd (new_RulerBuilder 0 no_options page))
          (canvas (fst (new_RulerBuilder 0 no_options page))))
        @ [BeginPath, FillStyle ''#0e1013'', FillRect 0 0 1000 20, ClosePath,
           BeginPath, Font ''10px sans-serif'', TextAlign ''left'', FillStyle ''#90a0ae'',
           StrokeStyle ''rgba(161, 174, 179, 0.8)'', LineWidth (1 / 2)]
        @ concat (map (drawPoint 20 40 (- 1)) [0..1000])
        @ [Stroke]
   \<and> height (ruler (fst (setSize (fst (new_RulerBuilder 0 no_options page)) 1000 (- 5) 0
         (snd (new_RulerBuilder 0 no_options page))))) = - 5
   \<and> canvas_height (heap (snd (setSize (fst (new_RulerBuilder 0 no_options page)) 1000 (- 5) 0
         (snd (new_RulerBuilder 0 no_options page))))
      (canvas (fst (new_RulerBuilder 0 no_options page)))) = 150"
proof -
  let ?t = "fst (new_RulerBuilder 0 no_options page)"
  let ?w = "snd (new_RulerBuilder 0 no_options page)"
  have o: "optionsHeap ?w (options ?t) = default_options"
    by (simp add: new_RulerBuilder_this new_RulerBuilder_proj)
  have e: "el ?t = 0" by (simp add: new_RulerBuilder_this)
  have p: "offsetWidth (heap ?w 0) = 800"
    by (simp add: new_RulerBuilder_heap_el)
  have r: "width (ruler ?t) = 1000" "height (ruler ?t) = 20"
    by (simp_all add: new_RulerBuilder_this)
  have f: "bgColor default_options = ''#0e1013''" "fontSize default_options = ''10px''"
    "fontFamily default_options = ''sans-serif''" "fontColor default_options = ''#90a0ae''"
    "strokeStyle default_options = ''rgba(161, 174, 179, 0.8)''"
    "lineWidth default_options = 1 / 2" "offset default_options = 40"
    "ratio default_options = 2"
    by (simp_all add: default_options_def)
  have w1: "width (ruler ?t) < 2 ^ 53" by (simp add: r)
  have w2: "width (ruler (fst (setSize ?t 1000 (- 5) 0 ?w))) < 2 ^ 53"
    by (simp add: setSize_this o e p)
  have w3: "width (ruler (fst (setSize ?t 1000 (- 5) (- 1) ?w))) < 2 ^ 53"
    by (simp add: setSize_this o e p)
  note T = setScale_setSize_store_and_redraw [OF w1 w3]
  note U = setScale_setSize_store_and_redraw [OF w1 w2]
  have 1: "scale (optionsHeap (snd (setScale ?t (- 1) ?w)) (options ?t)) = - 1"
    using T [THEN conjunct2, THEN conjunct1] by simp
  have 2: "ctx (heap (snd (setScale ?t (- 1) ?w)) (canvas ?t)) =
        ctx (heap ?w (canvas ?t))
        @ [BeginPath, FillStyle ''#0e1013'', FillRect 0 0 1000 20, ClosePath,
           BeginPath, Font ''10px sans-serif'', TextAlign ''left'', FillStyle ''#90a0ae'',
           StrokeStyle ''rgba(161, 174, 179, 0.8)'', LineWidth (1 / 2)]
        @ concat (map (drawPoint 20 40 (- 1)) [0..1000])
        @ [Stroke]"
    using T [THEN conjunct2, THEN conjunct2, THEN conjunct1] by (simp add: o r f)
  have 3: "height (ruler (fst (setSize ?t 1000 (- 5) 0 ?w))) = - 5"
    using U [THEN conjunct2, THEN conjunct2, THEN conjunct2, THEN conjunct2, THEN conjunct1]
    by simp
  have 4: "canvas_height (heap (snd (setSize ?t 1000 (- 5) 0 ?w)) (canvas ?t)) = 150"
    using U [THEN conjunct2, THEN conjunct2, THEN conjunct2, THEN conjunct2, THEN conjunct2,
        THEN conjunct1]
    by (simp add: o f canvas_size_def trunc_def)
  show ?thesis using w1 w2 1 2 3 4 by simp
qed

subsection \<open>C8: \<open>destroy\<close> of the builder\<close>

text \<open>
  C8. Take any builder as the constructor returns it and call \<open>destroy\<close>: the guides are
  cleared and the container is out of its parent, but the canvas still has both the
  \<open>mouseenter\<close> and the \<open>mousedown\<close> listener of \<open>constructRuler\<close>. The two
  \<open>removeEventListener\<close> calls are given the results of a new \<open>bind\<close>, which are not the
  functions that were registered, so they remove nothing.
\<close>

theorem destroy_leaves_canvas_listeners:
  "listeners (heap (snd (destroy (fst (new_RulerBuilder c p w)) (snd (new_RulerBuilder c p w))))
      (canvas (fst (new_RulerBuilder c p w)))) =
     [(''mouseenter'', Bound (Suc (Suc (nextRef w))) ConstructIndicator),
      (''mousedown'', Bound (Suc (Suc (Suc (nextRef w)))) ConstructGuide)]
   \<and> guides (fst (destroy (fst (new_RulerBuilder c p w)) (snd (new_RulerBuilder c p w)))) = []
   \<and> parentNode (heap (snd (destroy (fst (new_RulerBuilder c p w)) (snd (new_RulerBuilder c p w))))
        (el (fst (new_RulerBuilder c p w)))) = None"
proof -
  have c: "canvas (fst (new_RulerBuilder c p w)) = Suc (nextRef w)"
    and g: "guides (fst (new_RulerBuilder c p w)) = []"
    by (simp_all add: new_RulerBuilder_this)
  have l: "listeners (heap (snd (new_RulerBuilder c p w)) (Suc (nextRef w))) =
     [(''mouseenter'', Bound (Suc (Suc (nextRef w))) ConstructIndicator),
      (''mousedown'', Bound (Suc (Suc (Suc (nextRef w)))) ConstructGuide)]"
    by (rule new_RulerBuilder_proj)
  have "listeners (heap (snd (destroy (fst (new_RulerBuilder c p w)) (snd (new_RulerBuilder c p w))))
            (canvas (fst (new_RulerBuilder c p w))))
        = listeners (heap (snd (new_RulerBuilder c p w)) (canvas (fst (new_RulerBuilder c p w))))"
    by (rule destroy_listeners) (simp_all add: g c l new_RulerBuilder_proj)
  then show ?thesis by (simp add: c l destroy_this destroy_parent)
qed

subsection \<open>C9: destroying a guide line twice\<close>

text \<open>
  C9. \<open>destroy\<close> of a guide line has no statement that can throw, and calling it again
  changes nothing at all: the page after the second call is the page after the first, so
  no node, attached or not, is altered. The same holds for \<open>stopMoving\<close> called twice,
  and for \<open>stopMoving\<close> called after \<open>destroy\<close>: clearing \<open>document.onmousemove\<close> again is
  a no-op. After \<open>destroy\<close> the slot is empty, the node has no parent, and none of the
  three listeners of the constructor is left on it; a node that had no listeners when the
  guide line was constructed has none after the first call and none after the second.
\<close>

theorem GuideLine_destroy_again:
  "GuideLine_destroy this (GuideLine_destroy this w) = GuideLine_destroy this w
   \<and> stopMoving this (stopMoving this w) = stopMoving this w
   \<and> stopMoving this (GuideLine_destroy this w) = GuideLine_destroy this w
   \<and> onmousemove (GuideLine_destroy this w) = None
   \<and> parentNode (heap (GuideLine_destroy this w) (guideLine this)) = None
   \<and> (''mousedown'', GuideLine_mousedown) \<notin> set (listeners (heap (GuideLine_destroy this w) (guideLine this)))
   \<and> (''mouseup'', GuideLine_stopMoving) \<notin> set (listeners (heap (GuideLine_destroy this w) (guideLine this)))
   \<and> (''dblclick'', GuideLine_dblclick) \<notin> set (listeners (heap (GuideLine_destroy this w) (guideLine this)))
   \<and> (\<forall>e0 gl opts ev w0.
         new_GuideLine e0 gl opts ev w0 = Inr (this, w) \<and> listeners (heap w0 gl) = []
         \<longrightarrow> listeners (heap (GuideLine_destroy this w) gl) = []
             \<and> listeners (heap (GuideLine_destroy this (GuideLine_destroy this w)) gl) = [])"
proof -
  have l: "listeners (heap (GuideLine_destroy this w) gl) = []
           \<and> listeners (heap (GuideLine_destroy this (GuideLine_destroy this w)) gl) = []"
    if "new_GuideLine e0 gl opts ev w0 = Inr (this, w) \<and> listeners (heap w0 gl) = []"
    for e0 gl opts ev w0
  proof -
    from that have g: "guideLine this = gl"
      unfolding new_GuideLine_def Let_def by (auto split: sum.splits)
    from that new_GuideLine_listeners [of e0 gl opts ev w0 this w]
    have "listeners (heap (GuideLine_destroy this w) gl) = []"
      by (simp add: GuideLine_destroy_changed g)
    then show ?thesis by (simp add: GuideLine_destroy_twice)
  qed
  show ?thesis
    using l by (simp add: GuideLine_destroy_twice stopMoving_twice stopMoving_after_destroy
        GuideLine_destroy_changed)
qed

text \<open>
  C9 on the page for a guide line: the guide line constructed on node 3, which had no
  listeners, is destroyed twice.
\<close>

theorem GuideLine_destroy_again_witness:
  "new_GuideLine 0 3 5 \<lparr>clientX = 0, clientY = 0\<rparr> guide_page = Inr (guide_3, dragging_page)
   \<and> listeners (heap guide_page 3) = []
   \<and> listeners (heap (GuideLine_destroy guide_3 dragging_page) 3) = []
   \<and> listeners (heap (GuideLine_destroy guide_3 (GuideLine_destroy guide_3 dragging_page)) 3) = []
   \<and> GuideLine_destroy guide_3 (GuideLine_destroy guide_3 dragging_page)
       = GuideLine_destroy guide_3 dragging_page"
proof -
  have e: "listeners (heap guide_page 3) = []" by simp
  from GuideLine_destroy_again [of guide_3 dragging_page] new_GuideLine_guide_page e
  show ?thesis by blast
qed

subsection \<open>C10: a guide line is being dragged as soon as it is constructed\<close>

text \<open>
  C10. When \<open>new GuideLine(el, guideLine, options, event)\<close> returns, the constructor has
  called \<open>startMoving\<close> with the event it was given, after registering its three
  listeners: \<open>document.onmousemove\<close> holds the move function of this guide, with the
  pointer's distance from the node's position taken from that event, and the node
  carries the class \<open>rul_line_dragged\<close>. No \<open>mousedown\<close> on the guide's node is involved:
  the guide is in the dragging state from its creation on.
\<close>

theorem new_GuideLine_is_dragging:
  assumes "new_GuideLine e0 gl opts ev w = Inr (this, w1)"
  shows "guideLine this = gl
     \<and> startMoving this ev
           (addEventListener gl ''dblclick'' GuideLine_dblclick
             (addEventListener gl ''mouseup'' GuideLine_stopMoving
               (addEventListener gl ''mousedown'' GuideLine_mousedown w))) = Inr w1
     \<and> (\<exists>c. onmousemove w1 = Some c \<and> self c = this
            \<and> diffX c = clientX ev - parseInt_or_0 (style_left (heap w gl))
            \<and> diffY c = clientY ev - parseInt_or_0 (style_top (heap w gl)))
     \<and> ''rul_line_dragged'' \<in> set (classList (heap w1 gl))"
proof -
  let ?w0 = "addEventListener gl ''dblclick'' GuideLine_dblclick
             (addEventListener gl ''mouseup'' GuideLine_stopMoving
               (addEventListener gl ''mousedown'' GuideLine_mousedown w))"
  from assms have g: "guideLine this = gl"
    unfolding new_GuideLine_def Let_def by (auto split: sum.splits)
  from assms have s: "startMoving this ev ?w0 = Inr w1"
    unfolding new_GuideLine_def Let_def by (auto split: sum.splits)
  from startMoving_slot [OF s] g
  have "\<exists>c. onmousemove w1 = Some c \<and> self c = this
            \<and> diffX c = clientX ev - parseInt_or_0 (style_left (heap w gl))
            \<and> diffY c = clientY ev - parseInt_or_0 (style_top (heap w gl))"
    by auto
  moreover from startMoving_class [OF s] g
  have "''rul_line_dragged'' \<in> set (classList (heap w1 gl))" by simp
  ultimately show ?thesis using g s by blast
qed

text \<open>
  C10 on the page for a guide line, where no drag is going on before: the constructor
  returns the guide and leaves the page with the guide's move function installed and the
  node 3 marked as dragged.
\<close>

theorem new_GuideLine_is_dragging_witness:
  "new_GuideLine 0 3 5 \<lparr>clientX = 0, clientY = 0\<rparr> guide_page = Inr (guide_3, dragging_page)
   \<and> onmousemove guide_page = None
   \<and> (\<exists>c. onmousemove dragging_page = Some c \<and> self c = guide_3)
   \<and> ''rul_line_dragged'' \<in> set (classList (heap dragging_page 3))"
  using new_GuideLine_is_dragging [OF new_GuideLine_guide_page] new_GuideLine_guide_page
  by auto

end
